theory Spec2Isabelle
  imports Main
begin

section \<open>Repository records and the retained record set\<close>

text \<open>
  \<^verbatim>\<open>internal/syncer/repo.go\<close>: the struct \<^verbatim>\<open>Repo\<close>, five string fields.
\<close>

record Repo =
  Owner :: string
  Name :: string
  CloneURL :: string
  CommitSHA :: string
  LocalPath :: string

text \<open>
  \<^verbatim>\<open>SyncerOptions\<close>. The \<^verbatim>\<open>Logger\<close> field is a handle on the logging sink; what is
  written to it is kept in the call trace of the state below.
\<close>

record SyncerOptions =
  GithubToken :: string
  GithubTokenUser :: string
  GithubUser :: string
  GithubTopic :: string
  GithubPollInterval :: string
  GoRoot :: string

text \<open>
  \<^verbatim>\<open>Syncer\<close>: the options and the map \<^verbatim>\<open>repos map[string]*Repo\<close>. Every pointer stored
  in the map is a record allocated by one iteration of \<^verbatim>\<open>sync\<close> and never written again
  once \<^verbatim>\<open>update\<close> has seen it, so the map holds the records by value.
\<close>

record Syncer =
  options :: SyncerOptions
  repos :: "string \<rightharpoonup> Repo"

text \<open>\<^verbatim>\<open>func New(options SyncerOptions) *Syncer\<close>: an empty record set.\<close>

definition New :: "SyncerOptions \<Rightarrow> Syncer" where
  "New opts = \<lparr>options = opts, repos = Map.empty\<rparr>"

text \<open>The key under which \<^verbatim>\<open>update\<close> files a record: \<^verbatim>\<open>r.Name + "/" + r.Owner\<close>.\<close>

definition repo_key :: "Repo \<Rightarrow> string" where
  "repo_key r = Name r @ ''/'' @ Owner r"

text \<open>
  \<^verbatim>\<open>func (rs *Syncer) update(r *Repo) bool\<close>. The receiver is mutated in place; the
  model returns the result together with the new receiver.
\<close>

definition update :: "Repo \<Rightarrow> Syncer \<Rightarrow> bool \<times> Syncer" where
  "update r rs =
     (let name = Name r @ ''/'' @ Owner r in
      case repos rs name of
        None \<Rightarrow> (True, rs\<lparr>repos := (repos rs)(name \<mapsto> r)\<rparr>)
      | Some old \<Rightarrow>
          if CommitSHA r = CommitSHA old then (False, rs)
          else (True, rs\<lparr>repos := (repos rs)(name \<mapsto> r)\<rparr>))"

section \<open>The collaborators: hosting API, file system, git transport, timer, context\<close>

text \<open>
  A non-nil Go \<^verbatim>\<open>error\<close>. The only error the program tells apart from the others is
  the file system's "does not exist", through \<^verbatim>\<open>os.IsNotExist\<close>; every other error is
  carried by its message. A nil error is \<open>None\<close>.
\<close>

datatype error = ErrNotExist | Error string

fun IsNotExist :: "error option \<Rightarrow> bool" where
  "IsNotExist (Some ErrNotExist) = True"
| "IsNotExist _ = False"

text \<open>
  The fields of go-github's \<^verbatim>\<open>Repository\<close> that \<^verbatim>\<open>sync\<close> reads:
  \<^verbatim>\<open>*repo.Owner.Login\<close>, \<^verbatim>\<open>*repo.Name\<close>, \<^verbatim>\<open>*repo.CloneURL\<close>, \<^verbatim>\<open>*repo.FullName\<close>,
  \<^verbatim>\<open>*repo.DefaultBranch\<close>. The client fills them for every repository of a search
  result; they are taken as present.
\<close>

record Repository =
  repo_Owner_Login :: string
  repo_Name :: string
  repo_CloneURL :: string
  repo_FullName :: string
  repo_DefaultBranch :: string

text \<open>The two cases of the \<^verbatim>\<open>select\<close> in \<^verbatim>\<open>Start\<close>.\<close>

datatype select_case = TickerC | CtxDone

text \<open>
  Everything outside the program is a world of type \<open>'w\<close>, which each call reads and
  changes: the hosting API behind \<^verbatim>\<open>client.Search.Repositories\<close> and
  \<^verbatim>\<open>client.Repositories.GetBranch\<close> (both given the context and the token),
  \<^verbatim>\<open>os.Stat\<close>, go-git's \<^verbatim>\<open>PlainClone\<close>, \<^verbatim>\<open>PlainOpen\<close>, \<^verbatim>\<open>Worktree\<close> and \<^verbatim>\<open>Pull\<close>,
  the ticker, and the \<^verbatim>\<open>select\<close> that waits for the ticker or for the context.
  \<^verbatim>\<open>time.ParseDuration\<close> is a pure function of the string; a \<^verbatim>\<open>time.Duration\<close> is a
  signed 64-bit count of nanoseconds, on which the program does no arithmetic.
\<close>

record 'w extern =
  ParseDuration :: "string \<Rightarrow> error + int"
  NewTicker :: "int \<Rightarrow> 'w \<Rightarrow> 'w"
  ticker_Stop :: "'w \<Rightarrow> 'w"
  select :: "'w \<Rightarrow> select_case \<times> 'w"
  Search_Repositories :: "string \<Rightarrow> string \<Rightarrow> 'w \<Rightarrow> (error + Repository list) \<times> 'w"
  Repositories_GetBranch ::
    "string \<Rightarrow> string \<Rightarrow> string \<Rightarrow> string \<Rightarrow> 'w \<Rightarrow> (error + string) \<times> 'w"
  os_Stat :: "string \<Rightarrow> 'w \<Rightarrow> error option \<times> 'w"
  git_PlainClone :: "string \<Rightarrow> string \<Rightarrow> string \<Rightarrow> string \<Rightarrow> 'w \<Rightarrow> error option \<times> 'w"
  git_PlainOpen :: "string \<Rightarrow> 'w \<Rightarrow> error option \<times> 'w"
  Worktree :: "string \<Rightarrow> 'w \<Rightarrow> error option \<times> 'w"
  Pull :: "string \<Rightarrow> string \<Rightarrow> string \<Rightarrow> string \<Rightarrow> nat \<Rightarrow> 'w \<Rightarrow> error option \<times> 'w"

text \<open>
  What the program asks of its collaborators, in order: the calls above and the
  messages given to the logger (zap's levels \<^verbatim>\<open>Debug\<close>, \<^verbatim>\<open>Info\<close>, \<^verbatim>\<open>Error\<close>).
\<close>

datatype level = DebugLevel | InfoLevel | ErrorLevel

datatype call =
    Log level string
  | Call_NewTicker int
  | Call_Stop
  | Call_Select
  | Call_Search string
  | Call_GetBranch string string string
  | Call_Stat string
  | Call_PlainClone string string
  | Call_PlainOpen string
  | Call_Worktree string
  | Call_Pull string

text \<open>
  The state a run threads: the \<^verbatim>\<open>Syncer\<close> behind the receiver \<^verbatim>\<open>rs\<close>, the world, and
  the trace of calls made so far.
\<close>

record 'w state =
  syncer :: Syncer
  world :: 'w
  trace :: "call list"

definition invoke :: "call \<Rightarrow> ('w \<Rightarrow> 'a \<times> 'w) \<Rightarrow> 'w state \<Rightarrow> 'a \<times> 'w state" where
  "invoke c f s =
     (case f (world s) of (a, w) \<Rightarrow> (a, s\<lparr>world := w, trace := trace s @ [c]\<rparr>))"

definition logger :: "level \<Rightarrow> string \<Rightarrow> 'w state \<Rightarrow> 'w state" where
  "logger lv msg s = s\<lparr>trace := trace s @ [Log lv msg]\<rparr>"

section \<open>The local mirror manager\<close>

text \<open>\<^verbatim>\<open>func (rs *Syncer) clone(r *Repo) error\<close>.\<close>

definition clone :: "'w extern \<Rightarrow> Repo \<Rightarrow> 'w state \<Rightarrow> error option \<times> 'w state" where
  "clone E r s =
     (let s1 = logger InfoLevel ''cloning repository'' s
      in invoke (Call_PlainClone (LocalPath r) (CloneURL r))
           (git_PlainClone E (LocalPath r) (CloneURL r)
              (GithubTokenUser (options (syncer s1))) (GithubToken (options (syncer s1))))
           s1)"

text \<open>
  \<^verbatim>\<open>func (rs *Syncer) pull(r *Repo) error\<close>: open the working copy, take its worktree,
  pull from \<^verbatim>\<open>origin\<close> at depth 1; the first error ends it.
\<close>

definition pull :: "'w extern \<Rightarrow> Repo \<Rightarrow> 'w state \<Rightarrow> error option \<times> 'w state" where
  "pull E r s =
     (let s1 = logger InfoLevel ''pulling repository'' s;
          (err1, s2) = invoke (Call_PlainOpen (LocalPath r)) (git_PlainOpen E (LocalPath r)) s1
      in case err1 of
           Some e \<Rightarrow> (Some e, s2)
         | None \<Rightarrow>
            (let (err2, s3) = invoke (Call_Worktree (LocalPath r)) (Worktree E (LocalPath r)) s2
             in case err2 of
                  Some e \<Rightarrow> (Some e, s3)
                | None \<Rightarrow>
                    invoke (Call_Pull (LocalPath r))
                      (Pull E (LocalPath r) (GithubTokenUser (options (syncer s3)))
                         (GithubToken (options (syncer s3))) ''origin'' 1)
                      s3))"

text \<open>
  \<^verbatim>\<open>func (rs *Syncer) get(r *Repo) error\<close>:
  \<^verbatim>\<open>if _, err := os.Stat(r.LocalPath); os.IsNotExist(err) { clone } else { pull }\<close>.
\<close>

definition get :: "'w extern \<Rightarrow> Repo \<Rightarrow> 'w state \<Rightarrow> error option \<times> 'w state" where
  "get E r s =
     (let (err, s1) = invoke (Call_Stat (LocalPath r)) (os_Stat E (LocalPath r)) s
      in if IsNotExist err then clone E r s1 else pull E r s1)"

section \<open>One cycle\<close>

text \<open>
  The record \<^verbatim>\<open>sync\<close> builds for a listed repository, and the same once the head
  commit of the default branch is known (\<^verbatim>\<open>r.CommitSHA = *branch.Commit.SHA\<close>).
\<close>

definition observed :: "SyncerOptions \<Rightarrow> Repository \<Rightarrow> Repo" where
  "observed opts repo =
     \<lparr>Owner = repo_Owner_Login repo, Name = repo_Name repo, CloneURL = repo_CloneURL repo,
      CommitSHA = [], LocalPath = GoRoot opts @ ''/src/github.com/'' @ repo_FullName repo\<rparr>"

text \<open>
  The body of the loop \<^verbatim>\<open>for _, repo := range result.Repositories\<close>, with its two
  \<^verbatim>\<open>continue\<close> statements.
\<close>

definition sync_repo :: "'w extern \<Rightarrow> Repository \<Rightarrow> 'w state \<Rightarrow> 'w state" where
  "sync_repo E repo s =
     (let r = observed (options (syncer s)) repo;
          (branch, s1) =
             invoke (Call_GetBranch (Owner r) (Name r) (repo_DefaultBranch repo))
               (Repositories_GetBranch E (GithubToken (options (syncer s))) (Owner r) (Name r)
                  (repo_DefaultBranch repo))
               s
      in case branch of
           Inl err \<Rightarrow> logger ErrorLevel ''unable to get commit'' s1
         | Inr sha \<Rightarrow>
            (let r' = r\<lparr>CommitSHA := sha\<rparr>;
                 (changed, rs') = update r' (syncer s1);
                 s2 = s1\<lparr>syncer := rs'\<rparr>
             in if \<not> changed then logger DebugLevel ''repository has not changed'' s2
                else
                  (let s3 = logger InfoLevel ''processing repository update'' s2;
                       (err, s4) = get E r' s3
                   in case err of
                        Some e \<Rightarrow> logger ErrorLevel ''unable to update repository'' s4
                      | None \<Rightarrow> s4)))"

fun sync_range :: "'w extern \<Rightarrow> Repository list \<Rightarrow> 'w state \<Rightarrow> 'w state" where
  "sync_range E [] s = s"
| "sync_range E (repo # rest) s = sync_range E rest (sync_repo E repo s)"

text \<open>
  \<^verbatim>\<open>func (rs *Syncer) sync(ctx context.Context)\<close>: the query
  \<^verbatim>\<open>fmt.Sprintf("language:go user:%s topic:%s", GithubUser, GithubTopic)\<close>, the listing
  call, and on success the loop. It returns nothing; an error ends up in the log only.
\<close>

definition search_query :: "SyncerOptions \<Rightarrow> string" where
  "search_query opts = ''language:go user:'' @ GithubUser opts @ '' topic:'' @ GithubTopic opts"

definition sync :: "'w extern \<Rightarrow> 'w state \<Rightarrow> 'w state" where
  "sync E s =
     (let q = search_query (options (syncer s));
          s1 = logger DebugLevel ''query string'' s;
          (result, s2) =
             invoke (Call_Search q)
               (Search_Repositories E (GithubToken (options (syncer s))) q) s1
      in case result of
           Inl err \<Rightarrow> logger ErrorLevel ''search failed'' s2
         | Inr repositories \<Rightarrow> sync_range E repositories (logger DebugLevel ''search'' s2))"

section \<open>The scheduler\<close>

text \<open>
  How a call of \<^verbatim>\<open>Start\<close> stands after a bounded number of rounds of its loop: it has
  returned (an error or nil), it has panicked, or it is still in the loop.
\<close>

datatype outcome = Returned "error option" | Panicked string | Running

text \<open>
  The loop \<^verbatim>\<open>for { select { case <-ticker.C: rs.sync(ctx); case <-ctx.Done(): return nil } }\<close>,
  for at most \<open>n\<close> rounds of the \<^verbatim>\<open>select\<close>. The deferred \<^verbatim>\<open>ticker.Stop()\<close> runs at the
  return.
\<close>

fun poll_loop :: "'w extern \<Rightarrow> nat \<Rightarrow> 'w state \<Rightarrow> outcome \<times> 'w state" where
  "poll_loop E 0 s = (Running, s)"
| "poll_loop E (Suc n) s =
     (case invoke Call_Select (select E) s of
        (TickerC, s1) \<Rightarrow> poll_loop E n (sync E s1)
      | (CtxDone, s1) \<Rightarrow>
          (Returned None, snd (invoke Call_Stop (\<lambda>w. ((), ticker_Stop E w)) s1)))"

text \<open>
  \<^verbatim>\<open>func (rs *Syncer) Start(ctx context.Context) error\<close>. \<^verbatim>\<open>time.NewTicker\<close> panics when
  its argument is not positive ("non-positive interval for NewTicker"); otherwise the
  loop starts in the state \<open>armed\<close>, in which the ticker has been created.
\<close>

definition armed :: "'w extern \<Rightarrow> int \<Rightarrow> 'w state \<Rightarrow> 'w state" where
  "armed E d s = snd (invoke (Call_NewTicker d) (\<lambda>w. ((), NewTicker E d w)) s)"

definition Start :: "'w extern \<Rightarrow> nat \<Rightarrow> 'w state \<Rightarrow> outcome \<times> 'w state" where
  "Start E n s =
     (case ParseDuration E (GithubPollInterval (options (syncer s))) of
        Inl err \<Rightarrow> (Returned (Some err), s)
      | Inr d \<Rightarrow>
          if d \<le> 0 then (Panicked ''non-positive interval for NewTicker'', s)
          else poll_loop E n (armed E d s))"

text \<open>
  The cancellation reaches the loop in round \<open>k\<close> (counting from 0): the \<^verbatim>\<open>select\<close> of
  each of the \<open>k\<close> rounds before takes the ticker's case and is followed by its cycle,
  and the \<^verbatim>\<open>select\<close> of round \<open>k\<close> takes the case of \<^verbatim>\<open>ctx.Done()\<close>.
\<close>

fun cancelled_in_round :: "'w extern \<Rightarrow> nat \<Rightarrow> 'w state \<Rightarrow> bool" where
  "cancelled_in_round E 0 s = (fst (invoke Call_Select (select E) s) = CtxDone)"
| "cancelled_in_round E (Suc k) s =
     (case invoke Call_Select (select E) s of
        (TickerC, s1) \<Rightarrow> cancelled_in_round E k (sync E s1)
      | (CtxDone, s1) \<Rightarrow> False)"

section \<open>A world with a clock\<close>

text \<open>
  What the scheduler does is a matter of time, so one world is given in full: a clock in
  nanoseconds, the ticker, the moment the context is cancelled (if ever), and a journal
  of the calls made to the outside with the time each was issued. It follows the
  documentation of the Go library. \<^verbatim>\<open>time.NewTicker(d)\<close> delivers its first tick \<open>d\<close>
  after the call and then one every \<open>d\<close>, measured from the call; one tick waits for a
  slow receiver and the ones that come while it waits are dropped. The \<^verbatim>\<open>select\<close>
  blocks until one of its two cases can proceed and takes it; when both can, it takes
  either (\<open>prefer_tick\<close> says which). Every call to the outside takes \<open>lat\<close>
  nanoseconds, except that a call to the hosting API, which is given the context, fails
  with \<open>context canceled\<close> as soon as the context is cancelled: at once when it already
  is, at the moment of the cancellation when that comes while the call is under way.
  \<^verbatim>\<open>os.Stat\<close> and the git transport are given no context.
\<close>

record clock_world =
  now :: int
  next_tick :: int
  period :: int
  cancel_at :: "int option"
  journal :: "(int \<times> call) list"

definition served :: "nat \<Rightarrow> call \<Rightarrow> clock_world \<Rightarrow> clock_world" where
  "served lat c w = w\<lparr>now := now w + int lat, journal := journal w @ [(now w, c)]\<rparr>"

definition over_network ::
  "nat \<Rightarrow> call \<Rightarrow> (error + 'a) \<Rightarrow> clock_world \<Rightarrow> (error + 'a) \<times> clock_world" where
  "over_network lat c answer w =
     (case cancel_at w of
        None \<Rightarrow> (answer, served lat c w)
      | Some tc \<Rightarrow>
          if now w + int lat \<le> tc then (answer, served lat c w)
          else (Inl (Error ''context canceled''),
                w\<lparr>now := max (now w) tc, journal := journal w @ [(now w, c)]\<rparr>))"

definition wait_select :: "bool \<Rightarrow> clock_world \<Rightarrow> select_case \<times> clock_world" where
  "wait_select prefer_tick w =
     (let t_tick = max (now w) (next_tick w);
          tick = (TickerC,
                  w\<lparr>now := t_tick,
                    next_tick := next_tick w + ((t_tick - next_tick w) div period w + 1) * period w\<rparr>)
      in case cancel_at w of
           None \<Rightarrow> tick
         | Some tc \<Rightarrow>
             (let t_done = max (now w) tc
              in if t_done < t_tick \<or> (t_done = t_tick \<and> \<not> prefer_tick)
                 then (CtxDone, w\<lparr>now := t_done\<rparr>)
                 else tick))"

definition timed ::
  "bool \<Rightarrow> nat \<Rightarrow> (string \<Rightarrow> error + int) \<Rightarrow> (error + Repository list) \<Rightarrow> (error + string)
   \<Rightarrow> error option \<Rightarrow> error option \<Rightarrow> clock_world extern" where
  "timed prefer_tick lat pd listing head st git =
     \<lparr>ParseDuration = pd,
      NewTicker = (\<lambda>d w. w\<lparr>next_tick := now w + d, period := d\<rparr>),
      ticker_Stop = (\<lambda>w. w),
      select = wait_select prefer_tick,
      Search_Repositories = (\<lambda>tok q. over_network lat (Call_Search q) listing),
      Repositories_GetBranch =
        (\<lambda>tok owner name branch. over_network lat (Call_GetBranch owner name branch) head),
      os_Stat = (\<lambda>path w. (st, served lat (Call_Stat path) w)),
      git_PlainClone = (\<lambda>path url user password w. (git, served lat (Call_PlainClone path url) w)),
      git_PlainOpen = (\<lambda>path w. (None, served lat (Call_PlainOpen path) w)),
      Worktree = (\<lambda>path w. (None, served lat (Call_Worktree path) w)),
      Pull = (\<lambda>path user password remote depth w. (git, served lat (Call_Pull path) w))\<rparr>"

section \<open>Predicates on worlds and calls\<close>

text \<open>
  \<open>steady P E\<close>: every call to the hosting API, the file system and the transport
  keeps the property \<open>P\<close> of the world.
\<close>

definition steady :: "('w \<Rightarrow> bool) \<Rightarrow> 'w extern \<Rightarrow> bool" where
  "steady P E \<longleftrightarrow>
     (\<forall>tok q w. P w \<longrightarrow> P (snd (Search_Repositories E tok q w)))
   \<and> (\<forall>tok owner name branch w. P w \<longrightarrow> P (snd (Repositories_GetBranch E tok owner name branch w)))
   \<and> (\<forall>path w. P w \<longrightarrow> P (snd (os_Stat E path w)))
   \<and> (\<forall>path url user password w. P w \<longrightarrow> P (snd (git_PlainClone E path url user password w)))
   \<and> (\<forall>path w. P w \<longrightarrow> P (snd (git_PlainOpen E path w)))
   \<and> (\<forall>path w. P w \<longrightarrow> P (snd (Worktree E path w)))
   \<and> (\<forall>path user password remote depth w.
         P w \<longrightarrow> P (snd (Pull E path user password remote depth w)))"

text \<open>
  While the scheduler waits, no call in the journal is earlier than \<open>T\<close> and neither
  is the next tick; during a cycle the clock itself has passed \<open>T\<close>.
\<close>

definition idle_from :: "int \<Rightarrow> clock_world \<Rightarrow> bool" where
  "idle_from T w \<longleftrightarrow> T \<le> next_tick w \<and> 0 < period w \<and> (\<forall>(t, c) \<in> set (journal w). T \<le> t)"

definition busy_from :: "int \<Rightarrow> clock_world \<Rightarrow> bool" where
  "busy_from T w \<longleftrightarrow> T \<le> now w \<and> idle_from T w"

text \<open>The branch lookups of a trace, and the lookup made for a listed repository.\<close>

fun is_GetBranch :: "call \<Rightarrow> bool" where
  "is_GetBranch (Call_GetBranch owner name branch) = True"
| "is_GetBranch c = False"

definition lookup_of :: "Repository \<Rightarrow> call" where
  "lookup_of repo = Call_GetBranch (repo_Owner_Login repo) (repo_Name repo) (repo_DefaultBranch repo)"

section \<open>Example values\<close>

text \<open>Options, listed repositories and records used where a statement is run on data.\<close>

definition octo_options :: SyncerOptions where
  "octo_options =
     \<lparr>GithubToken = ''tok'', GithubTokenUser = ''octo'', GithubUser = ''octo'',
      GithubTopic = ''godoc'', GithubPollInterval = ''5m'', GoRoot = ''/go''\<rparr>"

definition alpha :: Repository where
  "alpha =
     \<lparr>repo_Owner_Login = ''octo'', repo_Name = ''alpha'',
      repo_CloneURL = ''https://github.com/octo/alpha.git'', repo_FullName = ''octo/alpha'',
      repo_DefaultBranch = ''main''\<rparr>"

definition beta :: Repository where
  "beta =
     \<lparr>repo_Owner_Login = ''octo'', repo_Name = ''beta'',
      repo_CloneURL = ''https://github.com/octo/beta.git'', repo_FullName = ''octo/beta'',
      repo_DefaultBranch = ''main''\<rparr>"

definition alpha_at :: "string \<Rightarrow> Repo" where
  "alpha_at sha = (observed octo_options alpha)\<lparr>CommitSHA := sha\<rparr>"

text \<open>
  A world that only counts the rounds of the \<^verbatim>\<open>select\<close> it has served: the ticker's
  case is taken in the first \<open>k\<close> rounds and the context's afterwards; every other call
  gets the same answer each time (\<^verbatim>\<open>PlainOpen\<close> and \<^verbatim>\<open>Worktree\<close> succeed).
\<close>

definition canned ::
  "nat \<Rightarrow> (string \<Rightarrow> error + int) \<Rightarrow> (error + Repository list) \<Rightarrow> (error + string)
   \<Rightarrow> error option \<Rightarrow> error option \<Rightarrow> nat extern" where
  "canned k pd listing head st git =
     \<lparr>ParseDuration = pd,
      NewTicker = (\<lambda>d w. w),
      ticker_Stop = (\<lambda>w. w),
      select = (\<lambda>w. (if w < k then TickerC else CtxDone, Suc w)),
      Search_Repositories = (\<lambda>tok q w. (listing, w)),
      Repositories_GetBranch = (\<lambda>tok owner name branch w. (head, w)),
      os_Stat = (\<lambda>path w. (st, w)),
      git_PlainClone = (\<lambda>path url user password w. (git, w)),
      git_PlainOpen = (\<lambda>path w. (None, w)),
      Worktree = (\<lambda>path w. (None, w)),
      Pull = (\<lambda>path user password remote depth w. (git, w))\<rparr>"

text \<open>What \<^verbatim>\<open>time.ParseDuration\<close> answers for a few strings.\<close>

definition durations :: "string \<Rightarrow> error + int" where
  "durations x =
     (if x = ''5m'' then Inr 300000000000
      else if x = ''300ms'' then Inr 300000000
      else if x = ''0s'' then Inr 0
      else if x = ''-1.5h'' then Inr (- 5400000000000)
      else Inl (Error ''time: invalid duration''))"

definition denied :: "error option" where
  "denied = Some (Error ''authentication required'')"

definition rate_limited :: error where
  "rate_limited = Error ''API rate limit exceeded''"

text \<open>A fresh syncer, and one that has seen \<open>alpha\<close> at commit \<open>c1\<close>.\<close>

definition octo_state :: "nat state" where
  "octo_state = \<lparr>syncer = New octo_options, world = 0, trace = []\<rparr>"

definition with_interval :: "string \<Rightarrow> 'w state \<Rightarrow> 'w state" where
  "with_interval x s = s\<lparr>syncer := (syncer s)\<lparr>options := (options (syncer s))\<lparr>GithubPollInterval := x\<rparr>\<rparr>\<rparr>"

definition seen_alpha :: "nat state" where
  "seen_alpha =
     \<lparr>syncer = snd (update (alpha_at ''c1'') (New octo_options)), world = 0, trace = []\<rparr>"

text \<open>
  A run on the clock: the interval is five minutes, every call to the outside takes 90
  seconds, the listing holds \<open>alpha\<close> and \<open>beta\<close>, no local path exists yet, the clone
  succeeds, and the \<^verbatim>\<open>select\<close> takes the ticker's case when both cases are ready.
\<close>

definition seconds :: "int \<Rightarrow> int" where
  "seconds n = n * 1000000000"

definition clock_state :: "int option \<Rightarrow> clock_world state" where
  "clock_state c =
     \<lparr>syncer = New octo_options,
      world = \<lparr>now = 0, next_tick = 0, period = 0, cancel_at = c, journal = []\<rparr>,
      trace = []\<rparr>"

definition slow_net :: "clock_world extern" where
  "slow_net = timed True 90000000000 durations (Inr [alpha, beta]) (Inr ''c1'') (Some ErrNotExist) None"

text \<open>The answer of a branch lookup made under a cancelled context.\<close>

definition cancelled_lookup :: "error + string" where
  "cancelled_lookup = Inl (Error ''context canceled'')"

section \<open>The change detector\<close>

lemma update_options [simp]: "options (snd (update r rs)) = options rs"
  by (simp add: update_def Let_def split: option.splits)

text \<open>
  C1. An observation whose key is not in the retained record set is reported as new
  (\<open>True\<close>); the observed record is stored under its key and nothing else in the set
  changes; the same observation made again is reported as unchanged (\<open>False\<close>) and
  leaves the state as it is, so every further repetition is reported as unchanged too.
\<close>

theorem update_new_once:
  assumes "repos rs (repo_key r) = None"
  shows "fst (update r rs) = True
       \<and> repos (snd (update r rs)) = (repos rs)(repo_key r \<mapsto> r)
       \<and> update r (snd (update r rs)) = (False, snd (update r rs))"
  using assms by (simp add: update_def repo_key_def)

theorem update_new_once_witness:
  "repos (New octo_options) (repo_key (alpha_at ''c1'')) = None
   \<and> fst (update (alpha_at ''c1'') (New octo_options)) = True
   \<and> repos (snd (update (alpha_at ''c1'') (New octo_options))) ''alpha/octo''
       = Some (alpha_at ''c1'')
   \<and> fst (update (alpha_at ''c1'') (snd (update (alpha_at ''c1'') (New octo_options)))) = False"
proof -
  have h: "repos (New octo_options) (repo_key (alpha_at ''c1'')) = None"
    by (simp add: New_def)
  have k: "repo_key (alpha_at ''c1'') = ''alpha/octo''"
    by (simp add: repo_key_def alpha_at_def observed_def alpha_def)
  show ?thesis using h update_new_once [OF h] by (simp add: k)
qed

text \<open>
  C2. An observation whose key is in the retained record set, with \<open>old\<close> the record
  kept under it: when the observed commit equals the kept one, the answer is unchanged
  (\<open>False\<close>) and the state is returned as it was; when it differs, the answer is changed
  (\<open>True\<close>), the observed record takes the place of the kept one, no other key is
  touched, and the record kept for the key carries the new commit.
\<close>

theorem update_known:
  assumes "repos rs (repo_key r) = Some old"
  shows "(CommitSHA r = CommitSHA old \<longrightarrow> update r rs = (False, rs))
       \<and> (CommitSHA r \<noteq> CommitSHA old \<longrightarrow>
            fst (update r rs) = True
          \<and> repos (snd (update r rs)) = (repos rs)(repo_key r \<mapsto> r)
          \<and> (\<exists>kept. repos (snd (update r rs)) (repo_key r) = Some kept
                    \<and> CommitSHA kept = CommitSHA r))"
  using assms by (simp add: update_def repo_key_def)

theorem update_known_witness:
  "repos (snd (update (alpha_at ''c1'') (New octo_options))) (repo_key (alpha_at ''c1''))
       = Some (alpha_at ''c1'')
   \<and> update (alpha_at ''c1'') (snd (update (alpha_at ''c1'') (New octo_options)))
       = (False, snd (update (alpha_at ''c1'') (New octo_options)))
   \<and> repos (snd (update (alpha_at ''c1'') (New octo_options))) (repo_key (alpha_at ''c2''))
       = Some (alpha_at ''c1'')
   \<and> CommitSHA (alpha_at ''c2'') \<noteq> CommitSHA (alpha_at ''c1'')
   \<and> fst (update (alpha_at ''c2'') (snd (update (alpha_at ''c1'') (New octo_options)))) = True
   \<and> repos (snd (update (alpha_at ''c2'') (snd (update (alpha_at ''c1'') (New octo_options)))))
         ''alpha/octo''
       = Some (alpha_at ''c2'')"
proof -
  let ?rs = "snd (update (alpha_at ''c1'') (New octo_options))"
  have k: "repo_key (alpha_at sha) = ''alpha/octo''" for sha
    by (simp add: repo_key_def alpha_at_def observed_def alpha_def)
  have h1: "repos ?rs (repo_key (alpha_at ''c1'')) = Some (alpha_at ''c1'')"
    by (simp add: update_def New_def repo_key_def)
  have h2: "repos ?rs (repo_key (alpha_at ''c2'')) = Some (alpha_at ''c1'')"
    using h1 by (simp add: k)
  have d: "CommitSHA (alpha_at ''c2'') \<noteq> CommitSHA (alpha_at ''c1'')"
    by (simp add: alpha_at_def)
  show ?thesis
    using h1 h2 d update_known [OF h1] update_known [OF h2] by (simp add: k)
qed

text \<open>
  Where no repository name holds a slash, the key tells the (owner, name) pairs apart.
\<close>

lemma split_at_first:
  "x \<notin> set xs \<Longrightarrow> x \<notin> set xs' \<Longrightarrow> xs @ x # ys = xs' @ x # ys'
   \<Longrightarrow> xs = xs' \<and> ys = ys'"
proof (induction xs arbitrary: xs')
  case Nil
  then show ?case by (cases xs') auto
next
  case (Cons a xs)
  then show ?case by (cases xs') auto
qed

lemma repo_key_inj_on_plain_names:
  assumes "CHR ''/'' \<notin> set (Name r)" and "CHR ''/'' \<notin> set (Name r')"
    and "repo_key r = repo_key r'"
  shows "Name r = Name r' \<and> Owner r = Owner r'"
  using assms split_at_first [of "CHR ''/''" "Name r" "Name r'" "Owner r" "Owner r'"]
  by (simp add: repo_key_def)

text \<open>
  C9. The key is the name, a slash, the owner. Over arbitrary strings it is not
  injective: there are records \<open>r1\<close>, \<open>r2\<close>, \<open>r3\<close> of different (owner, name) pairs
  and one key, such that after \<open>r1\<close> alone has been inserted into an empty set, the
  first observation of \<open>r2\<close> is answered unchanged (\<open>False\<close>) and the first observation
  of \<open>r3\<close> is answered on the strength of the commit kept for \<open>r1\<close> and overwrites
  the record of \<open>r1\<close>.
\<close>

theorem repo_key_collision:
  "(\<forall>r. repo_key r = Name r @ ''/'' @ Owner r)
   \<and> (\<exists>r1 r2 r3.
         (Owner r1, Name r1) \<noteq> (Owner r2, Name r2)
       \<and> (Owner r1, Name r1) \<noteq> (Owner r3, Name r3)
       \<and> repo_key r1 = repo_key r2 \<and> repo_key r1 = repo_key r3
       \<and> repos (New opts) (repo_key r2) = None
       \<and> repos (snd (update r1 (New opts))) (repo_key r2) = Some r1
       \<and> fst (update r2 (snd (update r1 (New opts)))) = False
       \<and> fst (update r3 (snd (update r1 (New opts)))) = True
       \<and> repos (snd (update r3 (snd (update r1 (New opts))))) (repo_key r1) = Some r3)"
proof -
  let ?r1 = "\<lparr>Owner = ''c'', Name = ''a/b'', CloneURL = ''u1'', CommitSHA = ''s1'',
              LocalPath = ''p1''\<rparr>"
  let ?r2 = "\<lparr>Owner = ''b/c'', Name = ''a'', CloneURL = ''u2'', CommitSHA = ''s1'',
              LocalPath = ''p2''\<rparr>"
  let ?r3 = "\<lparr>Owner = ''b/c'', Name = ''a'', CloneURL = ''u2'', CommitSHA = ''s2'',
              LocalPath = ''p2''\<rparr>"
  have "(Owner ?r1, Name ?r1) \<noteq> (Owner ?r2, Name ?r2)
       \<and> (Owner ?r1, Name ?r1) \<noteq> (Owner ?r3, Name ?r3)
       \<and> repo_key ?r1 = repo_key ?r2 \<and> repo_key ?r1 = repo_key ?r3
       \<and> repos (New opts) (repo_key ?r2) = None
       \<and> repos (snd (update ?r1 (New opts))) (repo_key ?r2) = Some ?r1
       \<and> fst (update ?r2 (snd (update ?r1 (New opts)))) = False
       \<and> fst (update ?r3 (snd (update ?r1 (New opts)))) = True
       \<and> repos (snd (update ?r3 (snd (update ?r1 (New opts))))) (repo_key ?r1) = Some ?r3"
    by (simp add: repo_key_def update_def New_def)
  then have "\<exists>r1 r2 r3.
         (Owner r1, Name r1) \<noteq> (Owner r2, Name r2)
       \<and> (Owner r1, Name r1) \<noteq> (Owner r3, Name r3)
       \<and> repo_key r1 = repo_key r2 \<and> repo_key r1 = repo_key r3
       \<and> repos (New opts) (repo_key r2) = None
       \<and> repos (snd (update r1 (New opts))) (repo_key r2) = Some r1
       \<and> fst (update r2 (snd (update r1 (New opts)))) = False
       \<and> fst (update r3 (snd (update r1 (New opts)))) = True
       \<and> repos (snd (update r3 (snd (update r1 (New opts))))) (repo_key r1) = Some r3"
    by blast
  then show ?thesis by (simp add: repo_key_def)
qed

section \<open>Calls, logging and the mirror operations\<close>

lemma invoke_simps [simp]:
  "fst (invoke c f s) = fst (f (world s))"
  "syncer (snd (invoke c f s)) = syncer s"
  "world (snd (invoke c f s)) = snd (f (world s))"
  "trace (snd (invoke c f s)) = trace s @ [c]"
  by (simp_all add: invoke_def split: prod.splits)

lemma invoke_eq:
  "invoke c f s = (fst (f (world s)), s\<lparr>world := snd (f (world s)), trace := trace s @ [c]\<rparr>)"
  by (simp add: invoke_def split: prod.splits)

lemma logger_simps [simp]:
  "syncer (logger lv msg s) = syncer s"
  "world (logger lv msg s) = world s"
  "trace (logger lv msg s) = trace s @ [Log lv msg]"
  by (simp_all add: logger_def)

lemma clone_syncer [simp]: "syncer (snd (clone E r s)) = syncer s"
  by (simp add: clone_def)

lemma clone_trace:
  "trace (snd (clone E r s))
     = trace s @ [Log InfoLevel ''cloning repository'', Call_PlainClone (LocalPath r) (CloneURL r)]"
  by (simp add: clone_def)

lemma clone_result:
  "fst (clone E r s)
     = fst (git_PlainClone E (LocalPath r) (CloneURL r) (GithubTokenUser (options (syncer s)))
              (GithubToken (options (syncer s))) (world s))"
  by (simp add: clone_def)

lemma pull_cases:
  obtains (open_fails) e w1 where
      "git_PlainOpen E (LocalPath r) (world s) = (Some e, w1)"
      "pull E r s = (Some e, s\<lparr>world := w1,
          trace := trace s @ [Log InfoLevel ''pulling repository'', Call_PlainOpen (LocalPath r)]\<rparr>)"
  | (worktree_fails) e w1 w2 where
      "git_PlainOpen E (LocalPath r) (world s) = (None, w1)"
      "Worktree E (LocalPath r) w1 = (Some e, w2)"
      "pull E r s = (Some e, s\<lparr>world := w2,
          trace := trace s @ [Log InfoLevel ''pulling repository'', Call_PlainOpen (LocalPath r),
                              Call_Worktree (LocalPath r)]\<rparr>)"
  | (pulled) res w1 w2 w3 where
      "git_PlainOpen E (LocalPath r) (world s) = (None, w1)"
      "Worktree E (LocalPath r) w1 = (None, w2)"
      "Pull E (LocalPath r) (GithubTokenUser (options (syncer s)))
         (GithubToken (options (syncer s))) ''origin'' 1 w2 = (res, w3)"
      "pull E r s = (res, s\<lparr>world := w3,
          trace := trace s @ [Log InfoLevel ''pulling repository'', Call_PlainOpen (LocalPath r),
                              Call_Worktree (LocalPath r), Call_Pull (LocalPath r)]\<rparr>)"
proof (cases "git_PlainOpen E (LocalPath r) (world s)")
  case (Pair e1 w1)
  note o = Pair
  show ?thesis
  proof (cases e1)
    case (Some e)
    with o have "pull E r s = (Some e, s\<lparr>world := w1,
          trace := trace s @ [Log InfoLevel ''pulling repository'', Call_PlainOpen (LocalPath r)]\<rparr>)"
      by (simp add: pull_def invoke_def logger_def)
    with o Some show ?thesis using open_fails by blast
  next
    case None
    note n1 = None
    show ?thesis
    proof (cases "Worktree E (LocalPath r) w1")
      case (Pair e2 w2)
      note wt = Pair
      show ?thesis
      proof (cases e2)
        case (Some e)
        with o n1 wt have "pull E r s = (Some e, s\<lparr>world := w2,
          trace := trace s @ [Log InfoLevel ''pulling repository'', Call_PlainOpen (LocalPath r),
                              Call_Worktree (LocalPath r)]\<rparr>)"
          by (simp add: pull_def invoke_def logger_def)
        with o n1 wt Some show ?thesis using worktree_fails by blast
      next
        case None
        note n2 = None
        obtain res w3 where p: "Pull E (LocalPath r) (GithubTokenUser (options (syncer s)))
         (GithubToken (options (syncer s))) ''origin'' 1 w2 = (res, w3)"
          by (cases "Pull E (LocalPath r) (GithubTokenUser (options (syncer s)))
         (GithubToken (options (syncer s))) ''origin'' 1 w2")
        with o n1 wt n2 have "pull E r s = (res, s\<lparr>world := w3,
          trace := trace s @ [Log InfoLevel ''pulling repository'', Call_PlainOpen (LocalPath r),
                              Call_Worktree (LocalPath r), Call_Pull (LocalPath r)]\<rparr>)"
          by (simp add: pull_def invoke_def logger_def)
        with o n1 wt n2 p show ?thesis using pulled by blast
      qed
    qed
  qed
qed

lemma pull_syncer [simp]: "syncer (snd (pull E r s)) = syncer s"
  by (cases rule: pull_cases [of E r s]) simp_all

lemma pull_trace:
  "\<exists>rest. set rest \<subseteq> {Call_Worktree (LocalPath r), Call_Pull (LocalPath r)}
        \<and> trace (snd (pull E r s))
            = trace s @ Log InfoLevel ''pulling repository'' # Call_PlainOpen (LocalPath r) # rest"
  by (cases rule: pull_cases [of E r s]) simp_all

lemma get_eq:
  "get E r s =
     (if IsNotExist (fst (os_Stat E (LocalPath r) (world s)))
      then clone E r (s\<lparr>world := snd (os_Stat E (LocalPath r) (world s)),
                        trace := trace s @ [Call_Stat (LocalPath r)]\<rparr>)
      else pull E r (s\<lparr>world := snd (os_Stat E (LocalPath r) (world s)),
                       trace := trace s @ [Call_Stat (LocalPath r)]\<rparr>))"
  by (simp add: get_def invoke_def split: prod.splits)

lemma get_syncer [simp]: "syncer (snd (get E r s)) = syncer s"
  by (simp add: get_eq)

lemma get_calls:
  "\<exists>rest. set rest \<subseteq> {Call_Worktree (LocalPath r), Call_Pull (LocalPath r)}
     \<and> trace (snd (get E r s)) =
         trace s @ Call_Stat (LocalPath r) #
           (if IsNotExist (fst (os_Stat E (LocalPath r) (world s)))
            then [Log InfoLevel ''cloning repository'',
                  Call_PlainClone (LocalPath r) (CloneURL r)]
            else Log InfoLevel ''pulling repository'' # Call_PlainOpen (LocalPath r) # rest)"
proof (cases "IsNotExist (fst (os_Stat E (LocalPath r) (world s)))")
  case True
  then have "trace (snd (get E r s)) =
      trace s @ Call_Stat (LocalPath r) #
        [Log InfoLevel ''cloning repository'', Call_PlainClone (LocalPath r) (CloneURL r)]"
    by (simp add: get_eq clone_trace)
  with True show ?thesis by (simp add: exI [of _ "[]"])
next
  case False
  obtain rest where "set rest \<subseteq> {Call_Worktree (LocalPath r), Call_Pull (LocalPath r)}"
    and "trace (snd (pull E r (s\<lparr>world := snd (os_Stat E (LocalPath r) (world s)),
                       trace := trace s @ [Call_Stat (LocalPath r)]\<rparr>)))
          = trace (s\<lparr>world := snd (os_Stat E (LocalPath r) (world s)),
                       trace := trace s @ [Call_Stat (LocalPath r)]\<rparr>)
            @ Log InfoLevel ''pulling repository'' # Call_PlainOpen (LocalPath r) # rest"
    using pull_trace by blast
  with False show ?thesis by (simp add: get_eq)
qed

text \<open>
  C3. \<^verbatim>\<open>get\<close> asks the file system once about the local path and then runs the clone
  when the answer is "does not exist" and the pull in every other case, on the state
  left by that question. Whatever the transport answers, the calls made are: for a path
  that does not exist, the clone of the repository's URL into the path and nothing
  else; otherwise the opening of the working copy at the path, followed at most by its
  worktree and the pull, and no clone.
\<close>

theorem get_clone_or_pull:
  "get E r s =
     (if IsNotExist (fst (os_Stat E (LocalPath r) (world s)))
      then clone E r (s\<lparr>world := snd (os_Stat E (LocalPath r) (world s)),
                        trace := trace s @ [Call_Stat (LocalPath r)]\<rparr>)
      else pull E r (s\<lparr>world := snd (os_Stat E (LocalPath r) (world s)),
                       trace := trace s @ [Call_Stat (LocalPath r)]\<rparr>))
   \<and> (\<exists>rest. set rest \<subseteq> {Call_Worktree (LocalPath r), Call_Pull (LocalPath r)}
        \<and> trace (snd (get E r s)) =
            trace s @ Call_Stat (LocalPath r) #
              (if IsNotExist (fst (os_Stat E (LocalPath r) (world s)))
               then [Log InfoLevel ''cloning repository'',
                     Call_PlainClone (LocalPath r) (CloneURL r)]
               else Log InfoLevel ''pulling repository'' # Call_PlainOpen (LocalPath r) # rest))"
  using get_eq [of E r s] get_calls [where E = E and r = r and s = s] by (intro conjI)

theorem get_clone_or_pull_witness:
  "trace (snd (get (canned 1 (\<lambda>x. Inr 1) (Inr [alpha]) (Inr ''c1'') (Some ErrNotExist)
                     denied)
                 (alpha_at ''c1'') octo_state))
     = [Call_Stat ''/go/src/github.com/octo/alpha'', Log InfoLevel ''cloning repository'',
        Call_PlainClone ''/go/src/github.com/octo/alpha'' ''https://github.com/octo/alpha.git'']
   \<and> trace (snd (get (canned 1 (\<lambda>x. Inr 1) (Inr [alpha]) (Inr ''c1'') None
                     denied)
                 (alpha_at ''c1'') octo_state))
     = [Call_Stat ''/go/src/github.com/octo/alpha'', Log InfoLevel ''pulling repository'',
        Call_PlainOpen ''/go/src/github.com/octo/alpha'',
        Call_Worktree ''/go/src/github.com/octo/alpha'',
        Call_Pull ''/go/src/github.com/octo/alpha'']"
  using get_clone_or_pull [of "canned 1 (\<lambda>x. Inr 1) (Inr [alpha]) (Inr ''c1'') (Some ErrNotExist)
                     denied" "alpha_at ''c1''" octo_state]
    get_clone_or_pull [of "canned 1 (\<lambda>x. Inr 1) (Inr [alpha]) (Inr ''c1'') None
                     denied" "alpha_at ''c1''" octo_state]
  by (simp add: canned_def octo_state_def alpha_at_def observed_def alpha_def octo_options_def
      clone_def pull_def invoke_def logger_def New_def denied_def)


section \<open>The cycle\<close>

lemma observed_simps [simp]:
  "Owner (observed opts repo) = repo_Owner_Login repo"
  "Name (observed opts repo) = repo_Name repo"
  "CloneURL (observed opts repo) = repo_CloneURL repo"
  "LocalPath (observed opts repo) = GoRoot opts @ ''/src/github.com/'' @ repo_FullName repo"
  by (simp_all add: observed_def)

lemma sync_repo_branch_fails:
  assumes "fst (Repositories_GetBranch E (GithubToken (options (syncer s)))
                  (repo_Owner_Login repo) (repo_Name repo) (repo_DefaultBranch repo) (world s))
           = Inl e"
  shows "sync_repo E repo s =
           s\<lparr>world := snd (Repositories_GetBranch E (GithubToken (options (syncer s)))
                  (repo_Owner_Login repo) (repo_Name repo) (repo_DefaultBranch repo) (world s)),
             trace := trace s @
               [Call_GetBranch (repo_Owner_Login repo) (repo_Name repo) (repo_DefaultBranch repo),
                Log ErrorLevel ''unable to get commit'']\<rparr>"
  using assms
  by (cases "Repositories_GetBranch E (GithubToken (options (syncer s)))
                  (repo_Owner_Login repo) (repo_Name repo) (repo_DefaultBranch repo) (world s)")
     (simp add: sync_repo_def invoke_def logger_def)

lemma sync_search_fails:
  assumes "fst (Search_Repositories E (GithubToken (options (syncer s)))
                  (search_query (options (syncer s))) (world s)) = Inl e"
  shows "sync E s =
           s\<lparr>world := snd (Search_Repositories E (GithubToken (options (syncer s)))
                  (search_query (options (syncer s))) (world s)),
             trace := trace s @
               [Log DebugLevel ''query string'', Call_Search (search_query (options (syncer s))),
                Log ErrorLevel ''search failed'']\<rparr>"
  using assms
  by (cases "Search_Repositories E (GithubToken (options (syncer s)))
                  (search_query (options (syncer s))) (world s)")
     (simp add: sync_def invoke_def logger_def)

lemma sync_repo_branch_ok:
  assumes "fst (Repositories_GetBranch E (GithubToken (options (syncer s)))
                  (repo_Owner_Login repo) (repo_Name repo) (repo_DefaultBranch repo) (world s))
           = Inr sha"
  shows "sync_repo E repo s =
     (let r' = (observed (options (syncer s)) repo)\<lparr>CommitSHA := sha\<rparr>;
          w1 = snd (Repositories_GetBranch E (GithubToken (options (syncer s)))
                  (repo_Owner_Login repo) (repo_Name repo) (repo_DefaultBranch repo) (world s));
          c = Call_GetBranch (repo_Owner_Login repo) (repo_Name repo) (repo_DefaultBranch repo)
      in if \<not> fst (update r' (syncer s))
         then s\<lparr>world := w1, syncer := snd (update r' (syncer s)),
                trace := trace s @ [c, Log DebugLevel ''repository has not changed'']\<rparr>
         else (case get E r' (s\<lparr>world := w1, syncer := snd (update r' (syncer s)),
                 trace := trace s @ [c, Log InfoLevel ''processing repository update'']\<rparr>) of
                 (Some e, s4) \<Rightarrow> logger ErrorLevel ''unable to update repository'' s4
               | (None, s4) \<Rightarrow> s4))"
  using assms
  by (cases "Repositories_GetBranch E (GithubToken (options (syncer s)))
                  (repo_Owner_Login repo) (repo_Name repo) (repo_DefaultBranch repo) (world s)";
      cases "update ((observed (options (syncer s)) repo)\<lparr>CommitSHA := sha\<rparr>) (syncer s)")
     (simp add: sync_repo_def invoke_def logger_def Let_def)


lemma sync_repo_syncer:
  assumes "fst (Repositories_GetBranch E (GithubToken (options (syncer s)))
                  (repo_Owner_Login repo) (repo_Name repo) (repo_DefaultBranch repo) (world s))
           = Inr sha"
  shows "syncer (sync_repo E repo s)
         = snd (update ((observed (options (syncer s)) repo)\<lparr>CommitSHA := sha\<rparr>) (syncer s))"
proof -
  let ?r = "(observed (options (syncer s)) repo)\<lparr>CommitSHA := sha\<rparr>"
  let ?s3 = "s\<lparr>world := snd (Repositories_GetBranch E (GithubToken (options (syncer s)))
                  (repo_Owner_Login repo) (repo_Name repo) (repo_DefaultBranch repo) (world s)),
               syncer := snd (update ?r (syncer s)),
               trace := trace s @ [Call_GetBranch (repo_Owner_Login repo) (repo_Name repo)
                  (repo_DefaultBranch repo), Log InfoLevel ''processing repository update'']\<rparr>"
  have g: "syncer (snd (get E ?r ?s3)) = snd (update ?r (syncer s))"
    by simp
  show ?thesis
  proof (cases "get E ?r ?s3")
    case (Pair err s4)
    with g have "syncer s4 = snd (update ?r (syncer s))" by simp
    with Pair show ?thesis
      by (cases err) (simp_all add: sync_repo_branch_ok [OF assms] Let_def)
  qed
qed


text \<open>
  C4. \<^verbatim>\<open>clone\<close>, \<^verbatim>\<open>pull\<close> and \<^verbatim>\<open>get\<close> return the syncer they were given, whatever
  the transport answers. In the loop body, once the head commit is known, the syncer
  left behind is the one \<^verbatim>\<open>update\<close> produced: the record is written at detection, the
  mirror operation runs afterwards on a state that already holds it, and its error, if
  any, only adds a line to the log.
\<close>

theorem mirror_leaves_records:
  "syncer (snd (clone E r s)) = syncer s
   \<and> syncer (snd (pull E r s)) = syncer s
   \<and> syncer (snd (get E r s)) = syncer s
   \<and> (fst (Repositories_GetBranch E (GithubToken (options (syncer s)))
              (repo_Owner_Login repo) (repo_Name repo) (repo_DefaultBranch repo) (world s))
         = Inr sha \<longrightarrow>
        syncer (sync_repo E repo s)
          = snd (update ((observed (options (syncer s)) repo)\<lparr>CommitSHA := sha\<rparr>) (syncer s))
      \<and> sync_repo E repo s =
         (let r' = (observed (options (syncer s)) repo)\<lparr>CommitSHA := sha\<rparr>;
              w1 = snd (Repositories_GetBranch E (GithubToken (options (syncer s)))
                     (repo_Owner_Login repo) (repo_Name repo) (repo_DefaultBranch repo) (world s));
              c = Call_GetBranch (repo_Owner_Login repo) (repo_Name repo) (repo_DefaultBranch repo)
          in if \<not> fst (update r' (syncer s))
             then s\<lparr>world := w1, syncer := snd (update r' (syncer s)),
                    trace := trace s @ [c, Log DebugLevel ''repository has not changed'']\<rparr>
             else (case get E r' (s\<lparr>world := w1, syncer := snd (update r' (syncer s)),
                     trace := trace s @ [c, Log InfoLevel ''processing repository update'']\<rparr>) of
                     (Some e, s4) \<Rightarrow> logger ErrorLevel ''unable to update repository'' s4
                   | (None, s4) \<Rightarrow> s4)))"
  using sync_repo_syncer sync_repo_branch_ok by (simp only: clone_syncer pull_syncer get_syncer) blast

theorem mirror_leaves_records_witness:
  "fst (Repositories_GetBranch (canned 1 (\<lambda>x. Inr 1) (Inr [alpha]) (Inr ''c1'') (Some ErrNotExist) denied)
          (GithubToken (options (syncer octo_state)))
          (repo_Owner_Login alpha) (repo_Name alpha) (repo_DefaultBranch alpha) (world octo_state))
     = Inr ''c1''
   \<and> fst (get (canned 1 (\<lambda>x. Inr 1) (Inr [alpha]) (Inr ''c1'') (Some ErrNotExist) denied)
            (alpha_at ''c1'') octo_state) = denied
   \<and> repos (syncer (sync_repo (canned 1 (\<lambda>x. Inr 1) (Inr [alpha]) (Inr ''c1'') (Some ErrNotExist) denied)
                       alpha octo_state)) ''alpha/octo''
     = Some (alpha_at ''c1'')
   \<and> last (trace (sync_repo (canned 1 (\<lambda>x. Inr 1) (Inr [alpha]) (Inr ''c1'') (Some ErrNotExist) denied)
                       alpha octo_state))
     = Log ErrorLevel ''unable to update repository''"
  using mirror_leaves_records [of "canned 1 (\<lambda>x. Inr 1) (Inr [alpha]) (Inr ''c1'') (Some ErrNotExist) denied"
     "alpha_at ''c1''" octo_state alpha "''c1''"]
  by (simp add: canned_def octo_state_def alpha_at_def observed_def alpha_def octo_options_def
      get_def clone_def invoke_def logger_def New_def update_def denied_def)


text \<open>
  C6. When the listing call fails, \<^verbatim>\<open>sync\<close> logs the failure and returns: no branch is
  looked up and the syncer is the one it started with. When the lookup of one
  repository's head commit fails, the loop body logs the failure and leaves the syncer
  as it was, and the loop goes on with the repositories that follow.
\<close>

theorem sync_failures_stay_local:
  "(fst (Search_Repositories E (GithubToken (options (syncer s)))
           (search_query (options (syncer s))) (world s)) = Inl e \<longrightarrow>
      sync E s =
        s\<lparr>world := snd (Search_Repositories E (GithubToken (options (syncer s)))
                  (search_query (options (syncer s))) (world s)),
          trace := trace s @
            [Log DebugLevel ''query string'', Call_Search (search_query (options (syncer s))),
             Log ErrorLevel ''search failed'']\<rparr>
      \<and> syncer (sync E s) = syncer s)
   \<and> (fst (Repositories_GetBranch E (GithubToken (options (syncer s)))
              (repo_Owner_Login repo) (repo_Name repo) (repo_DefaultBranch repo) (world s))
         = Inl e' \<longrightarrow>
        syncer (sync_repo E repo s) = syncer s
      \<and> sync_range E (repo # rest) s =
          sync_range E rest
            (s\<lparr>world := snd (Repositories_GetBranch E (GithubToken (options (syncer s)))
                     (repo_Owner_Login repo) (repo_Name repo) (repo_DefaultBranch repo) (world s)),
               trace := trace s @
                 [Call_GetBranch (repo_Owner_Login repo) (repo_Name repo) (repo_DefaultBranch repo),
                  Log ErrorLevel ''unable to get commit'']\<rparr>))"
proof (intro conjI impI)
  assume a: "fst (Search_Repositories E (GithubToken (options (syncer s)))
           (search_query (options (syncer s))) (world s)) = Inl e"
  show "sync E s =
        s\<lparr>world := snd (Search_Repositories E (GithubToken (options (syncer s)))
                  (search_query (options (syncer s))) (world s)),
          trace := trace s @
            [Log DebugLevel ''query string'', Call_Search (search_query (options (syncer s))),
             Log ErrorLevel ''search failed'']\<rparr>"
    by (rule sync_search_fails [OF a])
  then show "syncer (sync E s) = syncer s" by simp
next
  assume b: "fst (Repositories_GetBranch E (GithubToken (options (syncer s)))
              (repo_Owner_Login repo) (repo_Name repo) (repo_DefaultBranch repo) (world s))
         = Inl e'"
  show "syncer (sync_repo E repo s) = syncer s"
    by (simp add: sync_repo_branch_fails [OF b])
  show "sync_range E (repo # rest) s =
          sync_range E rest
            (s\<lparr>world := snd (Repositories_GetBranch E (GithubToken (options (syncer s)))
                     (repo_Owner_Login repo) (repo_Name repo) (repo_DefaultBranch repo) (world s)),
               trace := trace s @
                 [Call_GetBranch (repo_Owner_Login repo) (repo_Name repo) (repo_DefaultBranch repo),
                  Log ErrorLevel ''unable to get commit'']\<rparr>)"
    by (simp add: sync_repo_branch_fails [OF b])
qed

theorem sync_failures_stay_local_witness:
  "repos (syncer (sync (canned 1 durations (Inl rate_limited) (Inr ''c2'') None None) seen_alpha))
       ''alpha/octo''
     = Some (alpha_at ''c1'')
   \<and> trace (sync (canned 1 durations (Inl rate_limited) (Inr ''c2'') None None) seen_alpha)
     = [Log DebugLevel ''query string'', Call_Search ''language:go user:octo topic:godoc'',
        Log ErrorLevel ''search failed'']
   \<and> repos (syncer (sync (canned 1 durations (Inr [alpha, beta]) (Inl rate_limited) None None)
                       seen_alpha))
     = repos (syncer seen_alpha)
   \<and> trace (sync_range (canned 1 durations (Inr [alpha, beta]) (Inl rate_limited) None None)
              [alpha, beta] seen_alpha)
     = [Call_GetBranch ''octo'' ''alpha'' ''main'', Log ErrorLevel ''unable to get commit'',
        Call_GetBranch ''octo'' ''beta'' ''main'', Log ErrorLevel ''unable to get commit'']"
  using sync_failures_stay_local [of "canned 1 durations (Inl rate_limited) (Inr ''c2'') None None"
      seen_alpha rate_limited alpha rate_limited "[beta]"]
    sync_failures_stay_local [of "canned 1 durations (Inr [alpha, beta]) (Inl rate_limited) None None"
      seen_alpha rate_limited alpha rate_limited "[beta]"]
  by (simp add: canned_def seen_alpha_def alpha_at_def observed_def alpha_def beta_def
      octo_options_def sync_def sync_repo_def search_query_def invoke_def logger_def New_def
      update_def)


section \<open>The poll loop and its entry point\<close>

lemma poll_loop_outcome:
  "fst (poll_loop E n s) = Returned None \<or> fst (poll_loop E n s) = Running"
proof (induction n arbitrary: s)
  case 0
  show ?case by simp
next
  case (Suc n)
  show ?case
  proof (cases "invoke Call_Select (select E) s")
    case (Pair c s1)
    then show ?thesis using Suc [of "sync E s1"] by (cases c) simp_all
  qed
qed

lemma poll_loop_cancelled:
  "cancelled_in_round E k s \<Longrightarrow> k < n \<Longrightarrow> fst (poll_loop E n s) = Returned None"
proof (induction k arbitrary: s n)
  case 0
  then obtain m where n: "n = Suc m" by (cases n) auto
  from 0 show ?case
    by (cases "invoke Call_Select (select E) s") (simp add: n)
next
  case (Suc k)
  then obtain m where n: "n = Suc m" and km: "k < m" by (cases n) auto
  show ?case
  proof (cases "invoke Call_Select (select E) s")
    case (Pair c s1)
    with Suc.prems(1) have c: "c = TickerC" and r: "cancelled_in_round E k (sync E s1)"
      by (cases c; simp)+
    from Suc.IH [OF r km] Pair c show ?thesis by (simp add: n)
  qed
qed

lemma Start_parse_error:
  "ParseDuration E (GithubPollInterval (options (syncer s))) = Inl e
   \<Longrightarrow> Start E n s = (Returned (Some e), s)"
  by (simp add: Start_def)

lemma Start_error_iff:
  "fst (Start E n s) = Returned (Some e)
   \<longleftrightarrow> ParseDuration E (GithubPollInterval (options (syncer s))) = Inl e"
proof (cases "ParseDuration E (GithubPollInterval (options (syncer s)))")
  case (Inl a)
  then show ?thesis by (simp add: Start_def)
next
  case (Inr d)
  show ?thesis
  proof (cases "d \<le> 0")
    case True
    with Inr show ?thesis by (simp add: Start_def)
  next
    case False
    with Inr show ?thesis
      using poll_loop_outcome [of E n "armed E d s"]
      by (auto simp add: Start_def)
  qed
qed

lemma Start_armed:
  "ParseDuration E (GithubPollInterval (options (syncer s))) = Inr d \<Longrightarrow> 0 < d
   \<Longrightarrow> Start E n s = poll_loop E n (armed E d s)"
  by (simp add: Start_def)

lemma sync_repo_get_fails:
  assumes "fst (Repositories_GetBranch E (GithubToken (options (syncer s)))
                  (repo_Owner_Login repo) (repo_Name repo) (repo_DefaultBranch repo) (world s))
           = Inr sha"
    and "fst (update ((observed (options (syncer s)) repo)\<lparr>CommitSHA := sha\<rparr>) (syncer s))"
    and "fst (get E ((observed (options (syncer s)) repo)\<lparr>CommitSHA := sha\<rparr>)
           (s\<lparr>world := snd (Repositories_GetBranch E (GithubToken (options (syncer s)))
                  (repo_Owner_Login repo) (repo_Name repo) (repo_DefaultBranch repo) (world s)),
              syncer := snd (update ((observed (options (syncer s)) repo)\<lparr>CommitSHA := sha\<rparr>)
                              (syncer s)),
              trace := trace s @
                [Call_GetBranch (repo_Owner_Login repo) (repo_Name repo) (repo_DefaultBranch repo),
                 Log InfoLevel ''processing repository update'']\<rparr>)) = Some e"
  shows "last (trace (sync_repo E repo s)) = Log ErrorLevel ''unable to update repository''"
proof -
  let ?r = "(observed (options (syncer s)) repo)\<lparr>CommitSHA := sha\<rparr>"
  let ?s3 = "s\<lparr>world := snd (Repositories_GetBranch E (GithubToken (options (syncer s)))
                  (repo_Owner_Login repo) (repo_Name repo) (repo_DefaultBranch repo) (world s)),
              syncer := snd (update ?r (syncer s)),
              trace := trace s @
                [Call_GetBranch (repo_Owner_Login repo) (repo_Name repo) (repo_DefaultBranch repo),
                 Log InfoLevel ''processing repository update'']\<rparr>"
  obtain s4 where g: "get E ?r ?s3 = (Some e, s4)"
    using assms(3) by (cases "get E ?r ?s3") simp
  show ?thesis
    using assms(2) g by (simp add: sync_repo_branch_ok [OF assms(1)] Let_def)
qed

text \<open>
  C5. \<^verbatim>\<open>Start\<close> returns an error exactly when the poll interval does not parse, and then
  it returns that error in the state it was called in: no ticker, no \<^verbatim>\<open>select\<close>, no
  cycle. This holds for every behaviour of the collaborators, so no failure of a
  listing, a branch lookup, a clone or a pull comes out of \<^verbatim>\<open>Start\<close>; each of them ends
  as a line of the error log (\<open>search failed\<close>, \<open>unable to get commit\<close>,
  \<open>unable to update repository\<close>). With a positive interval, when the cancellation
  reaches the loop in round \<open>k\<close>, \<^verbatim>\<open>Start\<close> has returned nil after any larger number of
  rounds.
\<close>

theorem Start_error_only_for_interval:
  "(fst (Start E n s) = Returned (Some e)
      \<longleftrightarrow> ParseDuration E (GithubPollInterval (options (syncer s))) = Inl e)
   \<and> (ParseDuration E (GithubPollInterval (options (syncer s))) = Inl e
        \<longrightarrow> Start E n s = (Returned (Some e), s))
   \<and> (ParseDuration E (GithubPollInterval (options (syncer s))) = Inr d \<and> 0 < d
        \<and> cancelled_in_round E k (armed E d s) \<and> k < n
        \<longrightarrow> fst (Start E n s) = Returned None)
   \<and> (fst (Search_Repositories E (GithubToken (options (syncer s)))
              (search_query (options (syncer s))) (world s)) = Inl es
        \<longrightarrow> last (trace (sync E s)) = Log ErrorLevel ''search failed'')
   \<and> (fst (Repositories_GetBranch E (GithubToken (options (syncer s)))
              (repo_Owner_Login repo) (repo_Name repo) (repo_DefaultBranch repo) (world s))
         = Inl eb
        \<longrightarrow> last (trace (sync_repo E repo s)) = Log ErrorLevel ''unable to get commit'')
   \<and> (fst (Repositories_GetBranch E (GithubToken (options (syncer s)))
              (repo_Owner_Login repo) (repo_Name repo) (repo_DefaultBranch repo) (world s))
         = Inr sha
        \<and> fst (update ((observed (options (syncer s)) repo)\<lparr>CommitSHA := sha\<rparr>) (syncer s))
        \<and> fst (get E ((observed (options (syncer s)) repo)\<lparr>CommitSHA := sha\<rparr>)
             (s\<lparr>world := snd (Repositories_GetBranch E (GithubToken (options (syncer s)))
                    (repo_Owner_Login repo) (repo_Name repo) (repo_DefaultBranch repo) (world s)),
                syncer := snd (update ((observed (options (syncer s)) repo)\<lparr>CommitSHA := sha\<rparr>)
                                (syncer s)),
                trace := trace s @
                  [Call_GetBranch (repo_Owner_Login repo) (repo_Name repo)
                     (repo_DefaultBranch repo),
                   Log InfoLevel ''processing repository update'']\<rparr>)) = Some em
        \<longrightarrow> last (trace (sync_repo E repo s)) = Log ErrorLevel ''unable to update repository'')"
proof (intro conjI impI)
  show "fst (Start E n s) = Returned (Some e)
      \<longleftrightarrow> ParseDuration E (GithubPollInterval (options (syncer s))) = Inl e"
    by (rule Start_error_iff)
next
  assume "ParseDuration E (GithubPollInterval (options (syncer s))) = Inl e"
  then show "Start E n s = (Returned (Some e), s)" by (rule Start_parse_error)
next
  assume "ParseDuration E (GithubPollInterval (options (syncer s))) = Inr d \<and> 0 < d
        \<and> cancelled_in_round E k (armed E d s) \<and> k < n"
  then show "fst (Start E n s) = Returned None"
    using poll_loop_cancelled [of E k "armed E d s" n] by (simp add: Start_armed)
next
  assume "fst (Search_Repositories E (GithubToken (options (syncer s)))
              (search_query (options (syncer s))) (world s)) = Inl es"
  then show "last (trace (sync E s)) = Log ErrorLevel ''search failed''"
    by (simp add: sync_search_fails)
next
  assume "fst (Repositories_GetBranch E (GithubToken (options (syncer s)))
              (repo_Owner_Login repo) (repo_Name repo) (repo_DefaultBranch repo) (world s))
         = Inl eb"
  then show "last (trace (sync_repo E repo s)) = Log ErrorLevel ''unable to get commit''"
    by (simp add: sync_repo_branch_fails)
next
  assume "fst (Repositories_GetBranch E (GithubToken (options (syncer s)))
              (repo_Owner_Login repo) (repo_Name repo) (repo_DefaultBranch repo) (world s))
         = Inr sha
        \<and> fst (update ((observed (options (syncer s)) repo)\<lparr>CommitSHA := sha\<rparr>) (syncer s))
        \<and> fst (get E ((observed (options (syncer s)) repo)\<lparr>CommitSHA := sha\<rparr>)
             (s\<lparr>world := snd (Repositories_GetBranch E (GithubToken (options (syncer s)))
                    (repo_Owner_Login repo) (repo_Name repo) (repo_DefaultBranch repo) (world s)),
                syncer := snd (update ((observed (options (syncer s)) repo)\<lparr>CommitSHA := sha\<rparr>)
                                (syncer s)),
                trace := trace s @
                  [Call_GetBranch (repo_Owner_Login repo) (repo_Name repo)
                     (repo_DefaultBranch repo),
                   Log InfoLevel ''processing repository update'']\<rparr>)) = Some em"
  then show "last (trace (sync_repo E repo s)) = Log ErrorLevel ''unable to update repository''"
    using sync_repo_get_fails by blast
qed

theorem Start_error_only_for_interval_witness:
  "ParseDuration (canned 2 durations (Inl rate_limited) (Inr ''c1'') None None)
       (GithubPollInterval (options (syncer octo_state))) = Inr 300000000000
   \<and> cancelled_in_round (canned 2 durations (Inl rate_limited) (Inr ''c1'') None None) 2
        (armed (canned 2 durations (Inl rate_limited) (Inr ''c1'') None None) 300000000000
           octo_state)
   \<and> fst (Start (canned 2 durations (Inl rate_limited) (Inr ''c1'') None None) 3 octo_state)
       = Returned None
   \<and> Start (canned 2 durations (Inl rate_limited) (Inr ''c1'') None None) 3
         (with_interval ''five minutes'' octo_state)
       = (Returned (Some (Error ''time: invalid duration'')),
          with_interval ''five minutes'' octo_state)
   \<and> last (trace (sync (canned 2 durations (Inl rate_limited) (Inr ''c1'') None None)
                      octo_state))
       = Log ErrorLevel ''search failed''"
proof -
  let ?E = "canned 2 durations (Inl rate_limited) (Inr ''c1'') None None"
  have p: "ParseDuration ?E (GithubPollInterval (options (syncer octo_state))) = Inr 300000000000"
    by (simp add: canned_def durations_def octo_state_def New_def octo_options_def)
  have q: "ParseDuration ?E
             (GithubPollInterval (options (syncer (with_interval ''five minutes'' octo_state))))
           = Inl (Error ''time: invalid duration'')"
    by (simp add: canned_def durations_def with_interval_def)
  have f: "fst (Search_Repositories ?E (GithubToken (options (syncer octo_state)))
              (search_query (options (syncer octo_state))) (world octo_state)) = Inl rate_limited"
    by (simp add: canned_def)
  have c: "cancelled_in_round ?E 2 (armed ?E 300000000000 octo_state)"
    by (simp add: numeral_2_eq_2 armed_def invoke_def sync_def logger_def canned_def
        octo_state_def)
  show ?thesis
    using p q c f
      Start_error_only_for_interval [where E = "?E" and n = 3 and s = octo_state
        and d = 300000000000 and k = 2 and es = rate_limited]
      Start_error_only_for_interval [where E = "?E" and n = 3
        and s = "with_interval ''five minutes'' octo_state"
        and e = "Error ''time: invalid duration''"]
    by simp
qed

text \<open>
  C10. When the poll interval parses to a duration that is zero or negative (as
  \<open>0s\<close> and \<open>-1.5h\<close> do), \<^verbatim>\<open>Start\<close> panics in \<^verbatim>\<open>time.NewTicker\<close>: it returns no
  error and no nil, the loop is never entered, and the state is the one it was called
  in.
\<close>

theorem Start_panics_on_nonpositive_interval:
  assumes "ParseDuration E (GithubPollInterval (options (syncer s))) = Inr d" and "d \<le> 0"
  shows "Start E n s = (Panicked ''non-positive interval for NewTicker'', s)
       \<and> (\<forall>e. fst (Start E n s) \<noteq> Returned e) \<and> fst (Start E n s) \<noteq> Running"
  using assms by (simp add: Start_def)


theorem Start_panics_on_nonpositive_interval_witness:
  "ParseDuration (canned 0 durations (Inr []) (Inr ''c1'') None None)
       (GithubPollInterval (options (syncer (with_interval ''-1.5h'' octo_state))))
     = Inr (- 5400000000000)
   \<and> Start (canned 0 durations (Inr []) (Inr ''c1'') None None) 1
        (with_interval ''-1.5h'' octo_state)
     = (Panicked ''non-positive interval for NewTicker'', with_interval ''-1.5h'' octo_state)
   \<and> ParseDuration (canned 0 durations (Inr []) (Inr ''c1'') None None)
       (GithubPollInterval (options (syncer (with_interval ''0s'' octo_state))))
     = Inr 0
   \<and> Start (canned 0 durations (Inr []) (Inr ''c1'') None None) 1
        (with_interval ''0s'' octo_state)
     = (Panicked ''non-positive interval for NewTicker'', with_interval ''0s'' octo_state)"
proof -
  let ?E = "canned 0 durations (Inr []) (Inr ''c1'') None None"
  have a: "ParseDuration ?E (GithubPollInterval (options (syncer (with_interval ''-1.5h'' octo_state))))
     = Inr (- 5400000000000)"
    by (simp add: canned_def durations_def with_interval_def)
  have b: "ParseDuration ?E (GithubPollInterval (options (syncer (with_interval ''0s'' octo_state))))
     = Inr 0"
    by (simp add: canned_def durations_def with_interval_def)
  show ?thesis
    using a b Start_panics_on_nonpositive_interval [OF a, of 1]
      Start_panics_on_nonpositive_interval [OF b, of 1]
    by simp
qed


section \<open>What a cycle asks of the outside\<close>

lemma clone_world:
  "world (snd (clone E r s))
     = snd (git_PlainClone E (LocalPath r) (CloneURL r) (GithubTokenUser (options (syncer s)))
              (GithubToken (options (syncer s))) (world s))"
  by (simp add: clone_def)

lemma steady_clone: "steady P E \<Longrightarrow> P (world s) \<Longrightarrow> P (world (snd (clone E r s)))"
  by (simp add: clone_world steady_def)

lemma steady_pull:
  assumes "steady P E" and "P (world s)"
  shows "P (world (snd (pull E r s)))"
proof (cases rule: pull_cases [of E r s])
  case (open_fails e w1)
  then have "w1 = snd (git_PlainOpen E (LocalPath r) (world s))" by simp
  with assms open_fails show ?thesis by (simp add: steady_def)
next
  case (worktree_fails e w1 w2)
  then have "w1 = snd (git_PlainOpen E (LocalPath r) (world s))"
    and "w2 = snd (Worktree E (LocalPath r) w1)" by simp_all
  with assms worktree_fails show ?thesis by (simp add: steady_def)
next
  case (pulled res w1 w2 w3)
  then have "w1 = snd (git_PlainOpen E (LocalPath r) (world s))"
    and "w2 = snd (Worktree E (LocalPath r) w1)"
    and "w3 = snd (Pull E (LocalPath r) (GithubTokenUser (options (syncer s)))
         (GithubToken (options (syncer s))) ''origin'' 1 w2)" by simp_all
  with assms pulled show ?thesis by (simp add: steady_def)
qed

lemma steady_get:
  assumes "steady P E" and "P (world s)"
  shows "P (world (snd (get E r s)))"
proof -
  have "P (snd (os_Stat E (LocalPath r) (world s)))"
    using assms by (simp add: steady_def)
  then show ?thesis
    using assms(1) by (simp add: get_eq steady_clone steady_pull)
qed

lemma steady_sync_repo:
  assumes "steady P E" and "P (world s)"
  shows "P (world (sync_repo E repo s))"
proof -
  let ?b = "Repositories_GetBranch E (GithubToken (options (syncer s)))
                  (repo_Owner_Login repo) (repo_Name repo) (repo_DefaultBranch repo) (world s)"
  have w1: "P (snd ?b)" using assms by (simp add: steady_def)
  show ?thesis
  proof (cases "fst ?b")
    case (Inl e)
    then show ?thesis using w1 by (simp add: sync_repo_branch_fails)
  next
    case (Inr sha)
    let ?r = "(observed (options (syncer s)) repo)\<lparr>CommitSHA := sha\<rparr>"
    let ?s3 = "s\<lparr>world := snd ?b, syncer := snd (update ?r (syncer s)),
                 trace := trace s @ [Call_GetBranch (repo_Owner_Login repo) (repo_Name repo)
                    (repo_DefaultBranch repo), Log InfoLevel ''processing repository update'']\<rparr>"
    have g: "P (world (snd (get E ?r ?s3)))"
      using assms(1) w1 by (simp add: steady_get)
    show ?thesis
    proof (cases "get E ?r ?s3")
      case (Pair err s4)
      with g have "P (world s4)" by simp
      with Pair w1 show ?thesis
        by (cases err) (simp_all add: sync_repo_branch_ok [OF Inr] Let_def)
    qed
  qed
qed

lemma steady_sync_range:
  "steady P E \<Longrightarrow> P (world s) \<Longrightarrow> P (world (sync_range E repositories s))"
  by (induction repositories arbitrary: s) (simp_all add: steady_sync_repo)

lemma steady_sync:
  assumes "steady P E" and "P (world s)"
  shows "P (world (sync E s))"
proof -
  let ?l = "Search_Repositories E (GithubToken (options (syncer s)))
              (search_query (options (syncer s))) (world s)"
  have w1: "P (snd ?l)" using assms by (simp add: steady_def)
  show ?thesis
  proof (cases "fst ?l")
    case (Inl e)
    then show ?thesis using w1 by (simp add: sync_search_fails)
  next
    case (Inr repositories)
    then have "sync E s = sync_range E repositories
        (s\<lparr>world := snd ?l,
           trace := trace s @ [Log DebugLevel ''query string'',
              Call_Search (search_query (options (syncer s))), Log DebugLevel ''search'']\<rparr>)"
      by (cases ?l) (simp add: sync_def invoke_def logger_def)
    then show ?thesis using assms(1) w1 by (simp add: steady_sync_range)
  qed
qed

lemma get_trace:
  "\<exists>rest. trace (snd (get E r s)) = trace s @ rest \<and> (\<forall>c \<in> set rest. \<not> is_GetBranch c)"
proof -
  obtain rest where r: "set rest \<subseteq> {Call_Worktree (LocalPath r), Call_Pull (LocalPath r)}"
    and t: "trace (snd (get E r s)) =
         trace s @ Call_Stat (LocalPath r) #
           (if IsNotExist (fst (os_Stat E (LocalPath r) (world s)))
            then [Log InfoLevel ''cloning repository'',
                  Call_PlainClone (LocalPath r) (CloneURL r)]
            else Log InfoLevel ''pulling repository'' # Call_PlainOpen (LocalPath r) # rest)"
    using get_calls [where E = E and r = r and s = s] by blast
  from r have "\<forall>c \<in> set rest. \<not> is_GetBranch c" by auto
  with t show ?thesis by (cases "IsNotExist (fst (os_Stat E (LocalPath r) (world s)))") auto
qed

lemma sync_repo_trace:
  "\<exists>rest. trace (sync_repo E repo s) = trace s @ lookup_of repo # rest
         \<and> (\<forall>c \<in> set rest. \<not> is_GetBranch c)"
proof -
  let ?b = "Repositories_GetBranch E (GithubToken (options (syncer s)))
                  (repo_Owner_Login repo) (repo_Name repo) (repo_DefaultBranch repo) (world s)"
  show ?thesis
  proof (cases "fst ?b")
    case (Inl e)
    then show ?thesis by (simp add: sync_repo_branch_fails lookup_of_def)
  next
    case (Inr sha)
    let ?r = "(observed (options (syncer s)) repo)\<lparr>CommitSHA := sha\<rparr>"
    let ?s3 = "s\<lparr>world := snd ?b, syncer := snd (update ?r (syncer s)),
                 trace := trace s @ [Call_GetBranch (repo_Owner_Login repo) (repo_Name repo)
                    (repo_DefaultBranch repo), Log InfoLevel ''processing repository update'']\<rparr>"
    obtain rest where g: "trace (snd (get E ?r ?s3)) = trace ?s3 @ rest"
      and n: "\<forall>c \<in> set rest. \<not> is_GetBranch c"
      using get_trace by blast
    show ?thesis
    proof (cases "get E ?r ?s3")
      case (Pair err s4)
      with g have t4: "trace s4 = trace s @ lookup_of repo
          # (Log InfoLevel ''processing repository update'' # rest)"
        by (simp add: lookup_of_def)
      show ?thesis
      proof (cases "fst (update ?r (syncer s))")
        case False
        then show ?thesis by (simp add: sync_repo_branch_ok [OF Inr] Let_def lookup_of_def)
      next
        case True
        show ?thesis
        proof (cases err)
          case None
          with True Pair t4 n show ?thesis
            by (simp add: sync_repo_branch_ok [OF Inr] Let_def)
        next
          case (Some e)
          with True Pair t4 n show ?thesis
            by (simp add: sync_repo_branch_ok [OF Inr] Let_def)
        qed
      qed
    qed
  qed
qed

lemma sync_range_trace:
  "\<exists>rest. trace (sync_range E repositories s) = trace s @ rest
         \<and> filter is_GetBranch rest = map lookup_of repositories"
proof (induction repositories arbitrary: s)
  case Nil
  show ?case by simp
next
  case (Cons repo repositories)
  obtain r1 where a: "trace (sync_repo E repo s) = trace s @ lookup_of repo # r1"
    and b: "\<forall>c \<in> set r1. \<not> is_GetBranch c"
    using sync_repo_trace by blast
  obtain r2 where c: "trace (sync_range E repositories (sync_repo E repo s))
        = trace (sync_repo E repo s) @ r2"
    and d: "filter is_GetBranch r2 = map lookup_of repositories"
    using Cons [of "sync_repo E repo s"] by blast
  from b have "filter is_GetBranch r1 = []" by (simp add: filter_empty_conv)
  with a c d have "trace (sync_range E (repo # repositories) s) = trace s @ (lookup_of repo # r1 @ r2)
      \<and> filter is_GetBranch (lookup_of repo # r1 @ r2) = map lookup_of (repo # repositories)"
    by (simp add: lookup_of_def)
  then show ?case by blast
qed

lemma sync_trace: "\<exists>rest. trace (sync E s) = trace s @ rest"
proof -
  let ?l = "Search_Repositories E (GithubToken (options (syncer s)))
              (search_query (options (syncer s))) (world s)"
  show ?thesis
  proof (cases "fst ?l")
    case (Inl e)
    then show ?thesis by (simp add: sync_search_fails)
  next
    case (Inr repositories)
    then have e: "sync E s = sync_range E repositories
        (s\<lparr>world := snd ?l,
           trace := trace s @ [Log DebugLevel ''query string'',
              Call_Search (search_query (options (syncer s))), Log DebugLevel ''search'']\<rparr>)"
      by (cases ?l) (simp add: sync_def invoke_def logger_def)
    show ?thesis
      using sync_range_trace [of E repositories "s\<lparr>world := snd ?l,
           trace := trace s @ [Log DebugLevel ''query string'',
              Call_Search (search_query (options (syncer s))), Log DebugLevel ''search'']\<rparr>"]
      by (auto simp add: e)
  qed
qed

lemma poll_loop_trace: "\<exists>rest. trace (snd (poll_loop E n s)) = trace s @ rest"
proof (induction n arbitrary: s)
  case 0
  show ?case by simp
next
  case (Suc n)
  show ?case
  proof (cases "select E (world s)")
    case (Pair c w1)
    show ?thesis
    proof (cases c)
      case CtxDone
      with Pair show ?thesis by (simp add: invoke_def)
    next
      case TickerC
      let ?s1 = "s\<lparr>world := w1, trace := trace s @ [Call_Select]\<rparr>"
      obtain r1 where a: "trace (sync E ?s1) = trace ?s1 @ r1" using sync_trace by blast
      obtain r2 where b: "trace (snd (poll_loop E n (sync E ?s1))) = trace (sync E ?s1) @ r2"
        using Suc by blast
      from Pair TickerC a b show ?thesis by (simp add: invoke_def)
    qed
  qed
qed

lemma poll_loop_first_select:
  "\<exists>rest. trace (snd (poll_loop E (Suc n) s)) = trace s @ Call_Select # rest"
proof (cases "select E (world s)")
  case (Pair c w1)
  show ?thesis
  proof (cases c)
    case CtxDone
    with Pair show ?thesis by (simp add: invoke_def)
  next
    case TickerC
    let ?s1 = "s\<lparr>world := w1, trace := trace s @ [Call_Select]\<rparr>"
    obtain r1 where a: "trace (sync E ?s1) = trace ?s1 @ r1" using sync_trace by blast
    obtain r2 where b: "trace (snd (poll_loop E n (sync E ?s1))) = trace (sync E ?s1) @ r2"
      using poll_loop_trace by blast
    from Pair TickerC a b show ?thesis by (simp add: invoke_def)
  qed
qed

lemma armed_simps [simp]:
  "syncer (armed E d s) = syncer s"
  "trace (armed E d s) = trace s @ [Call_NewTicker d]"
  by (simp_all add: armed_def)

lemma poll_loop_cancelled_at_once:
  assumes "fst (select E (world s)) = CtxDone"
  shows "poll_loop E (Suc n) s
         = (Returned None,
            s\<lparr>world := ticker_Stop E (snd (select E (world s))),
              trace := trace s @ [Call_Select, Call_Stop]\<rparr>)"
  using assms by (cases "select E (world s)") (simp add: invoke_def)

lemma poll_loop_tick:
  assumes "fst (select E (world s)) = TickerC"
  shows "poll_loop E (Suc n) s
         = poll_loop E n
             (sync E (s\<lparr>world := snd (select E (world s)), trace := trace s @ [Call_Select]\<rparr>))"
  using assms by (cases "select E (world s)") (simp add: invoke_def)

section \<open>The scheduler on the clock\<close>

lemma busy_served: "busy_from T w \<Longrightarrow> busy_from T (served lat c w)"
  by (auto simp add: busy_from_def idle_from_def served_def)

lemma busy_over_network:
  "busy_from T w \<Longrightarrow> busy_from T (snd (over_network lat c answer w))"
  by (auto simp add: over_network_def served_def busy_from_def idle_from_def
      split: option.splits)

lemma steady_timed: "steady (busy_from T) (timed prefer_tick lat pd listing head st git)"
  by (simp add: steady_def timed_def busy_over_network busy_served)

lemma tick_step:
  fixes x p :: int
  assumes "0 \<le> x" and "0 < p"
  shows "0 \<le> (x div p + 1) * p"
proof -
  have "0 \<le> x div p" using assms by (simp add: pos_imp_zdiv_nonneg_iff)
  then show ?thesis using assms by simp
qed

lemma wait_select_tick:
  assumes "idle_from T w" and "wait_select prefer_tick w = (TickerC, w')"
  shows "busy_from T w'"
proof -
  let ?t = "max (now w) (next_tick w)"
  from assms(1) have p: "0 < period w" and n: "T \<le> next_tick w"
    and j: "\<forall>(t, c) \<in> set (journal w). T \<le> t"
    by (simp_all add: idle_from_def)
  have w': "w' = w\<lparr>now := ?t,
        next_tick := next_tick w + ((?t - next_tick w) div period w + 1) * period w\<rparr>"
    using assms(2) by (auto simp add: wait_select_def Let_def split: option.splits if_splits)
  have "0 \<le> ((?t - next_tick w) div period w + 1) * period w"
    using p by (intro tick_step) simp_all
  with n p j show ?thesis by (auto simp add: w' busy_from_def idle_from_def)
qed

lemma wait_select_done:
  assumes "idle_from T w" and "wait_select prefer_tick w = (CtxDone, w')"
  shows "idle_from T w'"
proof -
  obtain t where "w' = w\<lparr>now := t\<rparr>"
    using assms(2) by (auto simp add: wait_select_def Let_def split: option.splits if_splits)
  with assms(1) show ?thesis by (simp add: idle_from_def)
qed

lemma timed_select [simp]:
  "select (timed prefer_tick lat pd listing head st git) = wait_select prefer_tick"
  by (simp add: timed_def)

lemma timed_stop [simp]:
  "ticker_Stop (timed prefer_tick lat pd listing head st git) = (\<lambda>w. w)"
  by (simp add: timed_def)

lemma poll_loop_idle:
  "idle_from T (world s)
   \<Longrightarrow> idle_from T (world (snd (poll_loop (timed prefer_tick lat pd listing head st git) n s)))"
proof (induction n arbitrary: s)
  case 0
  then show ?case by simp
next
  case (Suc n)
  let ?E = "timed prefer_tick lat pd listing head st git"
  show ?case
  proof (cases "wait_select prefer_tick (world s)")
    case (Pair c w1)
    show ?thesis
    proof (cases c)
      case CtxDone
      with Pair Suc.prems have "idle_from T w1" using wait_select_done by blast
      with Pair CtxDone show ?thesis by (simp add: invoke_def)
    next
      case TickerC
      let ?s1 = "s\<lparr>world := w1, trace := trace s @ [Call_Select]\<rparr>"
      from Pair TickerC Suc.prems have "busy_from T (world ?s1)"
        using wait_select_tick by simp
      then have "busy_from T (world (sync ?E ?s1))"
        using steady_sync [OF steady_timed] by blast
      then have "idle_from T (world (sync ?E ?s1))" by (simp add: busy_from_def)
      from Suc.IH [OF this] Pair TickerC show ?thesis by (simp add: invoke_def)
    qed
  qed
qed

lemma timed_armed:
  "world (armed (timed prefer_tick lat pd listing head st git) d s)
     = (world s)\<lparr>next_tick := now (world s) + d, period := d\<rparr>"
  by (simp add: armed_def timed_def)

lemma Start_timed_journal:
  assumes "pd (GithubPollInterval (options (syncer s))) = Inr d" and "0 < d"
    and "journal (world s) = []"
  shows "\<forall>(t, c) \<in> set (journal (world (snd (Start (timed prefer_tick lat pd listing head st git) n s)))).
           now (world s) + d \<le> t"
proof -
  let ?E = "timed prefer_tick lat pd listing head st git"
  have p: "ParseDuration ?E (GithubPollInterval (options (syncer s))) = Inr d"
    using assms(1) by (simp add: timed_def)
  have "idle_from (now (world s) + d) (world (armed ?E d s))"
    using assms(2,3) by (simp add: timed_armed idle_from_def)
  then have "idle_from (now (world s) + d) (world (snd (poll_loop ?E n (armed ?E d s))))"
    by (rule poll_loop_idle)
  then show ?thesis by (simp add: Start_armed [OF p assms(2)] idle_from_def)
qed

lemma timed_idle_cancel:
  assumes "cancel_at w = Some tc" and "tc < now w + d" and "0 < d"
  shows "wait_select prefer_tick (w\<lparr>next_tick := now w + d, period := d\<rparr>)
         = (CtxDone, w\<lparr>now := max (now w) tc, next_tick := now w + d, period := d\<rparr>)"
  using assms by (simp add: wait_select_def Let_def max_def)

lemma slow_net_simps:
  "ParseDuration slow_net = durations"
  "NewTicker slow_net = (\<lambda>d w. w\<lparr>next_tick := now w + d, period := d\<rparr>)"
  "ticker_Stop slow_net = (\<lambda>w. w)"
  "select slow_net = wait_select True"
  "Search_Repositories slow_net = (\<lambda>tok q. over_network 90000000000 (Call_Search q) (Inr [alpha, beta]))"
  "Repositories_GetBranch slow_net =
     (\<lambda>tok owner name branch. over_network 90000000000 (Call_GetBranch owner name branch) (Inr ''c1''))"
  "os_Stat slow_net = (\<lambda>path w. (Some ErrNotExist, served 90000000000 (Call_Stat path) w))"
  "git_PlainClone slow_net = (\<lambda>path url user password w. (None, served 90000000000 (Call_PlainClone path url) w))"
  by (simp_all add: slow_net_def timed_def)

lemma seconds_simps:
  "seconds a + 90000000000 = seconds (a + 90)"
  "(seconds a \<le> seconds b) = (a \<le> b)"
  "(seconds a \<le> 0) = (a \<le> 0)"
  "max (seconds a) (seconds b) = seconds (max a b)"
  by (simp_all add: seconds_def max_def)

lemma octo_simps:
  "options (New opts) = opts"
  "GithubToken octo_options = ''tok''"
  "GithubTokenUser octo_options = ''octo''"
  "GithubUser octo_options = ''octo''"
  "GithubTopic octo_options = ''godoc''"
  "GithubPollInterval octo_options = ''5m''"
  "GoRoot octo_options = ''/go''"
  by (simp_all add: New_def octo_options_def)

lemma step_armed:
  "armed slow_net (seconds 300) (clock_state (Some (seconds 600)))
   = \<lparr>syncer = New octo_options,
      world = \<lparr>now = 0, next_tick = seconds 300, period = seconds 300,
               cancel_at = Some (seconds 600), journal = []\<rparr>,
      trace = [Call_NewTicker (seconds 300)]\<rparr>"
  by (simp add: armed_def invoke_def slow_net_simps clock_state_def)

lemma step_select1:
  "invoke Call_Select (select slow_net)
     \<lparr>syncer = rs,
      world = \<lparr>now = 0, next_tick = seconds 300, period = seconds 300,
               cancel_at = Some (seconds 600), journal = []\<rparr>,
      trace = tr\<rparr>
   = (TickerC,
      \<lparr>syncer = rs,
       world = \<lparr>now = seconds 300, next_tick = seconds 600, period = seconds 300,
                cancel_at = Some (seconds 600), journal = []\<rparr>,
       trace = tr @ [Call_Select]\<rparr>)"
  by (simp add: invoke_def slow_net_simps wait_select_def Let_def seconds_def)


lemma step_alpha:
  "sync_repo slow_net alpha
     \<lparr>syncer = New octo_options,
      world = \<lparr>now = seconds 390, next_tick = seconds 600, period = seconds 300,
               cancel_at = Some (seconds 600), journal = jr\<rparr>,
      trace = tr\<rparr>
   = \<lparr>syncer = snd (update (alpha_at ''c1'') (New octo_options)),
      world = \<lparr>now = seconds 660, next_tick = seconds 600, period = seconds 300,
               cancel_at = Some (seconds 600),
               journal = jr @
                 [(seconds 390, Call_GetBranch ''octo'' ''alpha'' ''main''),
                  (seconds 480, Call_Stat ''/go/src/github.com/octo/alpha''),
                  (seconds 570, Call_PlainClone ''/go/src/github.com/octo/alpha''
                                   ''https://github.com/octo/alpha.git'')]\<rparr>,
      trace = tr @
        [Call_GetBranch ''octo'' ''alpha'' ''main'',
         Log InfoLevel ''processing repository update'',
         Call_Stat ''/go/src/github.com/octo/alpha'',
         Log InfoLevel ''cloning repository'',
         Call_PlainClone ''/go/src/github.com/octo/alpha'' ''https://github.com/octo/alpha.git'']\<rparr>"
  by (simp add: sync_repo_def invoke_def logger_def slow_net_simps over_network_def
      served_def get_def clone_def Let_def update_def observed_def alpha_def
      alpha_at_def New_def octo_options_def seconds_def)

lemma step_beta:
  "sync_repo slow_net beta
     \<lparr>syncer = rs,
      world = \<lparr>now = seconds 660, next_tick = seconds 600, period = seconds 300,
               cancel_at = Some (seconds 600), journal = jr\<rparr>,
      trace = tr\<rparr>
   = \<lparr>syncer = rs,
      world = \<lparr>now = seconds 660, next_tick = seconds 600, period = seconds 300,
               cancel_at = Some (seconds 600),
               journal = jr @ [(seconds 660, Call_GetBranch ''octo'' ''beta'' ''main'')]\<rparr>,
      trace = tr @
        [Call_GetBranch ''octo'' ''beta'' ''main'', Log ErrorLevel ''unable to get commit'']\<rparr>"
  by (simp add: sync_repo_def invoke_def logger_def slow_net_simps over_network_def
      served_def observed_def beta_def seconds_def)


lemma step_cycle1:
  "sync slow_net
     \<lparr>syncer = New octo_options,
      world = \<lparr>now = seconds 300, next_tick = seconds 600, period = seconds 300,
               cancel_at = Some (seconds 600), journal = []\<rparr>,
      trace = tr\<rparr>
   = \<lparr>syncer = snd (update (alpha_at ''c1'') (New octo_options)),
      world = \<lparr>now = seconds 660, next_tick = seconds 600, period = seconds 300,
               cancel_at = Some (seconds 600),
               journal =
                 [(seconds 300, Call_Search ''language:go user:octo topic:godoc''),
                  (seconds 390, Call_GetBranch ''octo'' ''alpha'' ''main''),
                  (seconds 480, Call_Stat ''/go/src/github.com/octo/alpha''),
                  (seconds 570, Call_PlainClone ''/go/src/github.com/octo/alpha''
                                   ''https://github.com/octo/alpha.git''),
                  (seconds 660, Call_GetBranch ''octo'' ''beta'' ''main'')]\<rparr>,
      trace = tr @
        [Log DebugLevel ''query string'', Call_Search ''language:go user:octo topic:godoc'',
         Log DebugLevel ''search'',
         Call_GetBranch ''octo'' ''alpha'' ''main'',
         Log InfoLevel ''processing repository update'',
         Call_Stat ''/go/src/github.com/octo/alpha'',
         Log InfoLevel ''cloning repository'',
         Call_PlainClone ''/go/src/github.com/octo/alpha'' ''https://github.com/octo/alpha.git'',
         Call_GetBranch ''octo'' ''beta'' ''main'', Log ErrorLevel ''unable to get commit'']\<rparr>"
  by (simp add: sync_def invoke_def logger_def slow_net_simps over_network_def
      served_def search_query_def Let_def seconds_simps octo_simps
      step_alpha step_beta)

lemma step_select2:
  "invoke Call_Select (select slow_net)
     \<lparr>syncer = rs,
      world = \<lparr>now = seconds 660, next_tick = seconds 600, period = seconds 300,
               cancel_at = Some (seconds 600), journal = jr\<rparr>,
      trace = tr\<rparr>
   = (TickerC,
      \<lparr>syncer = rs,
       world = \<lparr>now = seconds 660, next_tick = seconds 900, period = seconds 300,
                cancel_at = Some (seconds 600), journal = jr\<rparr>,
       trace = tr @ [Call_Select]\<rparr>)"
  by (simp add: invoke_def slow_net_simps wait_select_def Let_def seconds_def)

lemma step_cycle2:
  "sync slow_net
     \<lparr>syncer = snd (update (alpha_at ''c1'') (New octo_options)),
      world = \<lparr>now = seconds 660, next_tick = seconds 900, period = seconds 300,
               cancel_at = Some (seconds 600), journal = jr\<rparr>,
      trace = tr\<rparr>
   = \<lparr>syncer = snd (update (alpha_at ''c1'') (New octo_options)),
      world = \<lparr>now = seconds 660, next_tick = seconds 900, period = seconds 300,
               cancel_at = Some (seconds 600),
               journal = jr @ [(seconds 660, Call_Search ''language:go user:octo topic:godoc'')]\<rparr>,
      trace = tr @
        [Log DebugLevel ''query string'', Call_Search ''language:go user:octo topic:godoc'',
         Log ErrorLevel ''search failed'']\<rparr>"
  by (simp add: sync_def invoke_def logger_def slow_net_simps over_network_def
      served_def search_query_def Let_def seconds_simps octo_simps)

lemma step_select3:
  "invoke Call_Select (select slow_net)
     \<lparr>syncer = rs,
      world = \<lparr>now = seconds 660, next_tick = seconds 900, period = seconds 300,
               cancel_at = Some (seconds 600), journal = jr\<rparr>,
      trace = tr\<rparr>
   = (CtxDone,
      \<lparr>syncer = rs,
       world = \<lparr>now = seconds 660, next_tick = seconds 900, period = seconds 300,
                cancel_at = Some (seconds 600), journal = jr\<rparr>,
       trace = tr @ [Call_Select]\<rparr>)"
  by (simp add: invoke_def slow_net_simps wait_select_def Let_def seconds_def)

lemma slow_interval:
  "ParseDuration slow_net (GithubPollInterval (options (syncer (clock_state c)))) = Inr (seconds 300)"
  by (simp add: slow_net_simps durations_def clock_state_def New_def octo_options_def seconds_def)


lemma slow_run3:
  "Start slow_net 3 (clock_state (Some (seconds 600)))
   = (Returned None,
      \<lparr>syncer = snd (update (alpha_at ''c1'') (New octo_options)),
       world = \<lparr>now = seconds 660, next_tick = seconds 900, period = seconds 300,
                cancel_at = Some (seconds 600),
                journal =
                  [(seconds 300, Call_Search ''language:go user:octo topic:godoc''),
                   (seconds 390, Call_GetBranch ''octo'' ''alpha'' ''main''),
                   (seconds 480, Call_Stat ''/go/src/github.com/octo/alpha''),
                   (seconds 570, Call_PlainClone ''/go/src/github.com/octo/alpha''
                                    ''https://github.com/octo/alpha.git''),
                   (seconds 660, Call_GetBranch ''octo'' ''beta'' ''main''),
                   (seconds 660, Call_Search ''language:go user:octo topic:godoc'')]\<rparr>,
       trace =
         [Call_NewTicker (seconds 300), Call_Select,
          Log DebugLevel ''query string'', Call_Search ''language:go user:octo topic:godoc'',
          Log DebugLevel ''search'',
          Call_GetBranch ''octo'' ''alpha'' ''main'',
          Log InfoLevel ''processing repository update'',
          Call_Stat ''/go/src/github.com/octo/alpha'',
          Log InfoLevel ''cloning repository'',
          Call_PlainClone ''/go/src/github.com/octo/alpha'' ''https://github.com/octo/alpha.git'',
          Call_GetBranch ''octo'' ''beta'' ''main'', Log ErrorLevel ''unable to get commit'',
          Call_Select,
          Log DebugLevel ''query string'', Call_Search ''language:go user:octo topic:godoc'',
          Log ErrorLevel ''search failed'',
          Call_Select, Call_Stop]\<rparr>)"
  by (simp add: Start_def slow_interval seconds_simps numeral_3_eq_3 step_armed step_select1
      step_cycle1 step_select2 step_cycle2 step_select3)
     (simp add: invoke_def slow_net_simps)

lemma slow_run2:
  "fst (Start slow_net 2 (clock_state (Some (seconds 600)))) = Running"
  by (simp add: Start_def slow_interval seconds_simps numeral_2_eq_2 step_armed step_select1
      step_cycle1 step_select2)

text \<open>
  C7. With a positive interval \<open>d\<close>, \<^verbatim>\<open>Start\<close> creates the ticker and then waits in the
  \<^verbatim>\<open>select\<close>: before the first round nothing but the ticker has been touched, and the
  first call after the ticker's creation is the \<^verbatim>\<open>select\<close>, so there is no poll at
  startup. When that first \<^verbatim>\<open>select\<close> takes the cancellation, \<^verbatim>\<open>Start\<close> returns nil in
  that same round, with the syncer untouched and no cycle run. On the clock: no call to
  the outside is issued earlier than one full interval after the start, whatever the
  outside answers and however long the run; and a cancellation that comes before the
  first tick ends the run at the moment it comes, with an empty journal.
\<close>

theorem first_cycle_after_one_interval:
  "(ParseDuration E (GithubPollInterval (options (syncer s))) = Inr d \<and> 0 < d \<longrightarrow>
       Start E 0 s = (Running, armed E d s)
     \<and> syncer (armed E d s) = syncer s
     \<and> trace (armed E d s) = trace s @ [Call_NewTicker d]
     \<and> (\<exists>rest. trace (snd (Start E (Suc n) s))
                  = trace s @ Call_NewTicker d # Call_Select # rest)
     \<and> (fst (select E (world (armed E d s))) = CtxDone \<longrightarrow>
           fst (Start E (Suc n) s) = Returned None
         \<and> syncer (snd (Start E (Suc n) s)) = syncer s
         \<and> trace (snd (Start E (Suc n) s))
             = trace s @ [Call_NewTicker d, Call_Select, Call_Stop]))
   \<and> (pd (GithubPollInterval (options (syncer c))) = Inr p \<and> 0 < p \<and> journal (world c) = []
        \<longrightarrow>
         (\<forall>(t, call) \<in> set (journal (world (snd
               (Start (timed prefer_tick lat pd listing head st git) m c)))).
            now (world c) + p \<le> t)
       \<and> (cancel_at (world c) = Some tc \<and> tc < now (world c) + p \<longrightarrow>
            Start (timed prefer_tick lat pd listing head st git) (Suc m) c
            = (Returned None,
               c\<lparr>world := (world c)\<lparr>now := max (now (world c)) tc,
                                      next_tick := now (world c) + p, period := p\<rparr>,
                 trace := trace c @ [Call_NewTicker p, Call_Select, Call_Stop]\<rparr>)))"
proof (intro conjI impI)
  assume a: "ParseDuration E (GithubPollInterval (options (syncer s))) = Inr d \<and> 0 < d"
  then have st: "Start E k s = poll_loop E k (armed E d s)" for k
    by (simp add: Start_armed)
  show "Start E 0 s = (Running, armed E d s)" by (simp add: st)
  show "syncer (armed E d s) = syncer s" by simp
  show "trace (armed E d s) = trace s @ [Call_NewTicker d]" by simp
  show "\<exists>rest. trace (snd (Start E (Suc n) s)) = trace s @ Call_NewTicker d # Call_Select # rest"
    using poll_loop_first_select [of E n "armed E d s"] by (simp add: st)
  assume b: "fst (select E (world (armed E d s))) = CtxDone"
  show "fst (Start E (Suc n) s) = Returned None"
    by (simp add: st poll_loop_cancelled_at_once [OF b] del: poll_loop.simps)
  show "syncer (snd (Start E (Suc n) s)) = syncer s"
    by (simp add: st poll_loop_cancelled_at_once [OF b] del: poll_loop.simps)
  show "trace (snd (Start E (Suc n) s)) = trace s @ [Call_NewTicker d, Call_Select, Call_Stop]"
    by (simp add: st poll_loop_cancelled_at_once [OF b] del: poll_loop.simps)
next
  let ?E = "timed prefer_tick lat pd listing head st git"
  assume a: "pd (GithubPollInterval (options (syncer c))) = Inr p \<and> 0 < p \<and> journal (world c) = []"
  then show "\<forall>(t, call) \<in> set (journal (world (snd (Start ?E m c)))). now (world c) + p \<le> t"
    using Start_timed_journal by blast
  from a have pe: "ParseDuration ?E (GithubPollInterval (options (syncer c))) = Inr p"
    by (simp add: timed_def)
  assume b: "cancel_at (world c) = Some tc \<and> tc < now (world c) + p"
  have w: "world (armed ?E p c) = (world c)\<lparr>next_tick := now (world c) + p, period := p\<rparr>"
    by (rule timed_armed)
  have sel: "wait_select prefer_tick (world (armed ?E p c))
      = (CtxDone, (world c)\<lparr>now := max (now (world c)) tc,
                             next_tick := now (world c) + p, period := p\<rparr>)"
    using a b by (simp add: w timed_idle_cancel)
  have f: "fst (select ?E (world (armed ?E p c))) = CtxDone" by (simp add: sel)
  have "poll_loop ?E (Suc m) (armed ?E p c)
        = (Returned None,
           (armed ?E p c)\<lparr>world := (world c)\<lparr>now := max (now (world c)) tc,
                                  next_tick := now (world c) + p, period := p\<rparr>,
             trace := trace c @ [Call_NewTicker p, Call_Select, Call_Stop]\<rparr>)"
    using poll_loop_cancelled_at_once [OF f, of m] by (simp add: sel)
  moreover have "(armed ?E p c)\<lparr>world := ww, trace := tt\<rparr> = c\<lparr>world := ww, trace := tt\<rparr>"
    for ww tt
    by (simp add: armed_def invoke_def)
  ultimately show "Start ?E (Suc m) c
        = (Returned None,
           c\<lparr>world := (world c)\<lparr>now := max (now (world c)) tc,
                                  next_tick := now (world c) + p, period := p\<rparr>,
             trace := trace c @ [Call_NewTicker p, Call_Select, Call_Stop]\<rparr>)"
    using a by (simp add: Start_armed [OF pe] del: poll_loop.simps)
qed

theorem first_cycle_after_one_interval_witness:
  "ParseDuration slow_net (GithubPollInterval (options (syncer (clock_state (Some (seconds 100))))))
     = Inr (seconds 300)
   \<and> fst (select slow_net (world (armed slow_net (seconds 300) (clock_state (Some (seconds 100))))))
     = CtxDone
   \<and> Start slow_net 1 (clock_state (Some (seconds 100)))
     = (Returned None,
        \<lparr>syncer = New octo_options,
         world = \<lparr>now = seconds 100, next_tick = seconds 300, period = seconds 300,
                  cancel_at = Some (seconds 100), journal = []\<rparr>,
         trace = [Call_NewTicker (seconds 300), Call_Select, Call_Stop]\<rparr>)
   \<and> map fst (journal (world (snd (Start slow_net 3 (clock_state (Some (seconds 600)))))))
     = [seconds 300, seconds 390, seconds 480, seconds 570, seconds 660, seconds 660]"
proof -
  let ?c = "clock_state (Some (seconds 100))"
  have p: "ParseDuration slow_net (GithubPollInterval (options (syncer (clock_state x))))
           = Inr (seconds 300)" for x
    by (rule slow_interval)
  have q: "durations (GithubPollInterval (options (syncer (clock_state x)))) = Inr (seconds 300)"
    for x
    using p [of x] by (simp add: slow_net_simps)
  have d: "0 < seconds 300" by (simp add: seconds_def)
  have e: "fst (select slow_net (world (armed slow_net (seconds 300) ?c))) = CtxDone"
    by (simp add: armed_def invoke_def slow_net_simps clock_state_def wait_select_def Let_def
        seconds_def)
  have j: "journal (world (clock_state x)) = []" for x
    by (simp add: clock_state_def)
  have k: "cancel_at (world ?c) = Some (seconds 100) \<and> seconds 100 < now (world ?c) + seconds 300"
    by (simp add: clock_state_def seconds_def)
  note T = first_cycle_after_one_interval
    [where E = slow_net and s = ?c and d = "seconds 300" and n = 0 and pd = durations
       and c = ?c and p = "seconds 300" and prefer_tick = True and lat = 90000000000
       and listing = "Inr [alpha, beta]" and head = "Inr ''c1''" and st = "Some ErrNotExist"
       and git = None and m = 0 and tc = "seconds 100"]
  from T p d e q j k have "Start slow_net 1 ?c
     = (Returned None,
        ?c\<lparr>world := (world ?c)\<lparr>now := max (now (world ?c)) (seconds 100),
                              next_tick := now (world ?c) + seconds 300, period := seconds 300\<rparr>,
          trace := trace ?c @ [Call_NewTicker (seconds 300), Call_Select, Call_Stop]\<rparr>)"
    by (simp add: slow_net_def del: poll_loop.simps)
  then have "Start slow_net 1 ?c
     = (Returned None,
        \<lparr>syncer = New octo_options,
         world = \<lparr>now = seconds 100, next_tick = seconds 300, period = seconds 300,
                  cancel_at = Some (seconds 100), journal = []\<rparr>,
         trace = [Call_NewTicker (seconds 300), Call_Select, Call_Stop]\<rparr>)"
    by (simp add: clock_state_def seconds_def)
  with p e show ?thesis by (simp add: slow_run3)
qed

text \<open>
  C8, as stated, fails. On the clock, with the context cancelled at second 600 while
  the clone of \<open>alpha\<close> is under way (seconds 570 to 660): the loop of the cycle goes on
  to \<open>beta\<close> and issues its branch lookup at second 660, after the cancellation; the
  cycle ends with the tick of second 600 pending, the \<^verbatim>\<open>select\<close> takes it, and a new
  cycle issues its listing call. After two rounds \<^verbatim>\<open>Start\<close> is still running; it
  returns nil in the third.
\<close>

theorem cancelled_cycle_goes_on:
  "cancel_at (world (clock_state (Some (seconds 600)))) = Some (seconds 600)
   \<and> journal (world (snd (Start slow_net 3 (clock_state (Some (seconds 600))))))
       = [(seconds 300, Call_Search ''language:go user:octo topic:godoc''),
          (seconds 390, Call_GetBranch ''octo'' ''alpha'' ''main''),
          (seconds 480, Call_Stat ''/go/src/github.com/octo/alpha''),
          (seconds 570, Call_PlainClone ''/go/src/github.com/octo/alpha''
                           ''https://github.com/octo/alpha.git''),
          (seconds 660, Call_GetBranch ''octo'' ''beta'' ''main''),
          (seconds 660, Call_Search ''language:go user:octo topic:godoc'')]
   \<and> fst (Start slow_net 2 (clock_state (Some (seconds 600)))) = Running
   \<and> fst (Start slow_net 3 (clock_state (Some (seconds 600)))) = Returned None"
  by (simp add: slow_run3 slow_run2) (simp add: clock_state_def)

text \<open>
  C8, amended. A cycle never looks at the cancellation signal. Whatever the state of the
  context, the loop looks up the head commit of every listed repository, in the listed
  order, and makes no other lookup; a repository whose lookup fails (as a lookup under a
  cancelled context does) is skipped with the syncer untouched and no mirror operation.
  When the cycle is over the scheduler is back at its \<^verbatim>\<open>select\<close>, and only there the
  cancellation ends the run: when the \<^verbatim>\<open>select\<close> takes the case of \<^verbatim>\<open>ctx.Done()\<close>,
  \<^verbatim>\<open>Start\<close> stops the ticker and returns nil.
\<close>

theorem cycle_runs_to_its_end:
  "(\<exists>rest. trace (sync_range E repositories s) = trace s @ rest
          \<and> filter is_GetBranch rest = map lookup_of repositories)
   \<and> (fst (Repositories_GetBranch E (GithubToken (options (syncer s)))
              (repo_Owner_Login repo) (repo_Name repo) (repo_DefaultBranch repo) (world s))
         = Inl e \<longrightarrow>
        sync_repo E repo s =
          s\<lparr>world := snd (Repositories_GetBranch E (GithubToken (options (syncer s)))
                     (repo_Owner_Login repo) (repo_Name repo) (repo_DefaultBranch repo) (world s)),
            trace := trace s @ [lookup_of repo, Log ErrorLevel ''unable to get commit'']\<rparr>)
   \<and> (fst (select E (world s)) = TickerC \<longrightarrow>
        poll_loop E (Suc n) s
          = poll_loop E n
              (sync E (s\<lparr>world := snd (select E (world s)), trace := trace s @ [Call_Select]\<rparr>)))
   \<and> (fst (select E (world s)) = CtxDone \<longrightarrow>
        poll_loop E (Suc n) s
          = (Returned None,
             s\<lparr>world := ticker_Stop E (snd (select E (world s))),
               trace := trace s @ [Call_Select, Call_Stop]\<rparr>))"
  using sync_range_trace [of E repositories s] sync_repo_branch_fails [of E s repo e]
    poll_loop_tick [of E s n] poll_loop_cancelled_at_once [of E s n]
  by (simp add: lookup_of_def del: poll_loop.simps)

theorem cycle_runs_to_its_end_witness:
  "fst (Repositories_GetBranch (canned 1 durations (Inr [alpha, beta]) cancelled_lookup None None)
          (GithubToken (options (syncer octo_state)))
          (repo_Owner_Login beta) (repo_Name beta) (repo_DefaultBranch beta) (world octo_state))
     = cancelled_lookup
   \<and> trace (sync_range (canned 1 durations (Inr [alpha, beta]) cancelled_lookup None None)
              [alpha, beta] octo_state)
     = [Call_GetBranch ''octo'' ''alpha'' ''main'', Log ErrorLevel ''unable to get commit'',
        Call_GetBranch ''octo'' ''beta'' ''main'', Log ErrorLevel ''unable to get commit'']
   \<and> fst (select (canned 1 durations (Inr [alpha, beta]) cancelled_lookup None None)
            (world octo_state)) = TickerC
   \<and> fst (select (canned 0 durations (Inr [alpha, beta]) cancelled_lookup None None)
            (world octo_state)) = CtxDone
   \<and> poll_loop (canned 0 durations (Inr [alpha, beta]) cancelled_lookup None None) 1 octo_state
     = (Returned None, octo_state\<lparr>world := 1, trace := [Call_Select, Call_Stop]\<rparr>)"
  using cycle_runs_to_its_end [where E = "canned 1 durations (Inr [alpha, beta]) cancelled_lookup None None"
      and s = octo_state and repositories = "[alpha, beta]" and repo = beta
      and e = "Error ''context canceled''" and n = 0]
    cycle_runs_to_its_end [where E = "canned 0 durations (Inr [alpha, beta]) cancelled_lookup None None"
      and s = octo_state and repositories = "[alpha, beta]" and repo = beta
      and e = "Error ''context canceled''" and n = 0]
  by (simp add: canned_def octo_state_def cancelled_lookup_def sync_repo_def invoke_def logger_def
      alpha_def beta_def observed_def New_def octo_options_def)

end
